theory Spec2Isabelle
  imports Main "HOL-Library.Word"
begin

unbundle bit_operations_syntax

section \<open>The traceback library: data model\<close>

text \<open>
  The repository holds two revisions of \<^verbatim>\<open>traceback.c\<close>.  The one under
  \<^verbatim>\<open>src/traceback/traceback.c\<close> validates addresses with a \<^verbatim>\<open>write()\<close> probe;
  its functions carry the suffix \<open>_probe\<close> here.  The one in \<^verbatim>\<open>src/unnamed/part_000\<close>
  intercepts \<^verbatim>\<open>SIGSEGV\<close> with \<^verbatim>\<open>sigsetjmp\<close>/\<^verbatim>\<open>siglongjmp\<close>; its functions carry the
  suffix \<open>_sigjmp\<close>.  The target is 32-bit x86: \<^verbatim>\<open>int\<close> and pointers are 32-bit words.
\<close>

type_synonym address = "32 word"
type_synonym byte = "8 word"

text \<open>Memory: a byte per mapped address, \<open>None\<close> where the address is not readable.\<close>

type_synonym memory = "address \<Rightarrow> byte option"

text \<open>
  The argument type tags of \<^verbatim>\<open>traceback_internal.h\<close> (the header is not part of the
  sources; the tags are the ones the \<^verbatim>\<open>switch\<close> of \<^verbatim>\<open>print_arguments\<close> names, and
  \<open>TYPE_UNKNOWN\<close> stands for every value that reaches its \<^verbatim>\<open>default\<close> branch).
\<close>

datatype argtype =
  TYPE_CHAR | TYPE_INT | TYPE_FLOAT | TYPE_DOUBLE | TYPE_STRING | TYPE_STRING_ARRAY
  | TYPE_VOIDSTAR | TYPE_UNKNOWN

record argsym =
  a_type :: argtype
  a_offset :: int
  a_name :: string

record functsym =
  f_addr :: address
  f_name :: string
  f_args :: "argsym list"

text \<open>
  What the code takes from outside \<^verbatim>\<open>traceback.c\<close>: the table \<^verbatim>\<open>functions\<close> with
  the capacities and the size bound of the missing header (parameters here), the memory
  of the process, the values returned by \<^verbatim>\<open>sigaction\<close> and \<^verbatim>\<open>sigprocmask\<close>, and the
  renderings \<^verbatim>\<open>printf\<close> gives to floating-point values.

  A static array of fixed capacity is represented by the list of its initialised
  entries; the remaining slots up to the capacity are zero-filled, as C does.
\<close>

record machine =
  "functions" :: "functsym list"
  FUNCTS_MAX_NUM :: int
  ARGS_MAX_NUM :: int
  MAX_FUNCTION_SIZE_BYTES :: int
  mem :: memory
  sigaction_result :: int
  sigprocmask_result :: int
  fmt_float :: "32 word \<Rightarrow> string"
  fmt_double :: "64 word \<Rightarrow> string"

text \<open>
  What C leaves undefined or what ends the process is a value of the model:
  an unhandled invalid access, a read of \<^verbatim>\<open>functions\<close> outside its bounds, a signed
  overflow, and a \<^verbatim>\<open>siglongjmp\<close> to a \<^verbatim>\<open>sigsetjmp\<close> whose function has returned.
\<close>

datatype fault =
  SegFault address
  | OutOfBounds int
  | IntOverflow
  | StaleJump address

definition zero_argsym :: argsym where
  "zero_argsym = \<lparr>a_type = TYPE_CHAR, a_offset = 0, a_name = []\<rparr>"

definition zero_functsym :: functsym where
  "zero_functsym = \<lparr>f_addr = 0, f_name = [], f_args = []\<rparr>"

text \<open>\<^verbatim>\<open>functions[i]\<close>: defined for \<open>0 \<le> i < FUNCTS_MAX_NUM\<close> only.\<close>

definition functions_at :: "machine \<Rightarrow> int \<Rightarrow> fault + functsym" where
  "functions_at M i =
     (if i < 0 \<or> FUNCTS_MAX_NUM M \<le> i then Inl (OutOfBounds i)
      else if nat i < length (functions M) then Inr (functions M ! nat i)
      else Inr zero_functsym)"

text \<open>\<^verbatim>\<open>function.args[i]\<close>, read only under the guard \<open>i < ARGS_MAX_NUM\<close>.\<close>

definition args_at :: "functsym \<Rightarrow> nat \<Rightarrow> argsym" where
  "args_at f i = (if i < length (f_args f) then f_args f ! i else zero_argsym)"

subsection \<open>Memory reads\<close>

definition read8 :: "memory \<Rightarrow> address \<Rightarrow> byte option" where
  "read8 m a = m a"

text \<open>A little-endian 32-bit read; it fails where one of its four bytes is unreadable.\<close>

definition read32 :: "memory \<Rightarrow> address \<Rightarrow> 32 word option" where
  "read32 m a =
     (case (m a, m (a + 1), m (a + 2), m (a + 3)) of
        (Some b0, Some b1, Some b2, Some b3) \<Rightarrow> Some (word_rcat [b3, b2, b1, b0])
      | _ \<Rightarrow> None)"

definition read64 :: "memory \<Rightarrow> address \<Rightarrow> 64 word option" where
  "read64 m a =
     (case (read32 m a, read32 m (a + 4)) of
        (Some lo, Some hi) \<Rightarrow> Some (word_rcat [hi, lo])
      | _ \<Rightarrow> None)"

subsection \<open>The conversions of \<^verbatim>\<open>fprintf\<close>\<close>

definition digit_char :: "int \<Rightarrow> char" where
  "digit_char d = ''0123456789abcdef'' ! nat d"

function radix :: "int \<Rightarrow> int \<Rightarrow> string" where
  "radix b n =
     (if b < 2 \<or> n < b then [digit_char n]
      else radix b (n div b) @ [digit_char (n mod b)])"
  by pat_completeness auto
termination
proof (relation "measure (\<lambda>(b, n). nat n)")
  show "wf (measure (\<lambda>(b, n). nat n))" by simp
next
  fix b n :: int
  assume "\<not> (b < 2 \<or> n < b)"
  then have b: "2 \<le> b" and n: "b \<le> n" by simp_all
  have "n div b < n" using b n by (simp add: int_div_less_self)
  then show "((b, n div b), (b, n)) \<in> measure (\<lambda>(b, n). nat n)"
    using b n by simp
qed

declare radix.simps [simp del]

text \<open>\<^verbatim>\<open>%x\<close>, \<^verbatim>\<open>%#x\<close>, \<^verbatim>\<open>%o\<close> of an \<^verbatim>\<open>int\<close> (read as unsigned) and \<^verbatim>\<open>%d\<close>.\<close>

definition fmt_x :: "32 word \<Rightarrow> string" where
  "fmt_x w = radix 16 (uint w)"

definition fmt_hash_x :: "32 word \<Rightarrow> string" where
  "fmt_hash_x w = (if w = 0 then ''0'' else ''0x'' @ radix 16 (uint w))"

definition fmt_o :: "32 word \<Rightarrow> string" where
  "fmt_o w = radix 8 (uint w)"

definition fmt_d :: "32 word \<Rightarrow> string" where
  "fmt_d w = (if sint w < 0 then ''-'' @ radix 10 (- sint w) else radix 10 (sint w))"

text \<open>\<^verbatim>\<open>isprint\<close> in the C locale, on the byte read through a \<^verbatim>\<open>char\<close>.\<close>

definition isprint :: "byte \<Rightarrow> bool" where
  "isprint c = (0x20 \<le> c \<and> c \<le> 0x7e)"

definition MAX_STRING_LEN :: nat where
  "MAX_STRING_LEN = 25"

definition MAX_ARRAY_LEN :: nat where
  "MAX_ARRAY_LEN = 3"

definition INT_MAX :: int where
  "INT_MAX = 2147483647"

section \<open>Symbol-table lookup\<close>

subsection \<open>\<^verbatim>\<open>get_index\<close>, write-probe revision\<close>

text \<open>
  The scan \<^verbatim>\<open>while (++index < FUNCTS_MAX_NUM && strlen(functions[index].name) != 0)\<close>;
  the argument is the value of \<open>index\<close> after the increment, the result the final
  \<open>index\<close> and \<open>find\<close>.  Addresses are compared as \<^verbatim>\<open>int\<close>.
\<close>

function scan_probe :: "machine \<Rightarrow> 32 word \<Rightarrow> int \<Rightarrow> fault + (int \<times> bool)" where
  "scan_probe M return_address index =
     (if index < FUNCTS_MAX_NUM M then
        (case functions_at M index of
           Inl e \<Rightarrow> Inl e
         | Inr f \<Rightarrow>
             if f_name f \<noteq> [] then
               (if return_address <s f_addr f then Inr (index, True)
                else scan_probe M return_address (index + 1))
             else Inr (index, False))
      else Inr (index, False))"
  by pat_completeness auto
termination
  by (relation "measure (\<lambda>(M, ra, index). nat (FUNCTS_MAX_NUM M - index))") auto

declare scan_probe.simps [simp del]

definition get_index_probe :: "machine \<Rightarrow> 32 word \<Rightarrow> fault + int" where
  "get_index_probe M return_address =
     (case scan_probe M return_address 0 of
        Inl e \<Rightarrow> Inl e
      | Inr (index, found) \<Rightarrow> Inr (if found then index - 1 else - 1))"

subsection \<open>\<^verbatim>\<open>get_index\<close>, signal revision\<close>

function scan_sigjmp :: "machine \<Rightarrow> 32 word \<Rightarrow> int \<Rightarrow> fault + int" where
  "scan_sigjmp M return_address index =
     (if index < FUNCTS_MAX_NUM M then
        (case functions_at M index of
           Inl e \<Rightarrow> Inl e
         | Inr f \<Rightarrow>
             if f_name f \<noteq> [] then
               (if return_address <s f_addr f then Inr index
                else scan_sigjmp M return_address (index + 1))
             else Inr index)
      else Inr index)"
  by pat_completeness auto
termination
  by (relation "measure (\<lambda>(M, ra, index). nat (FUNCTS_MAX_NUM M - index))") auto

declare scan_sigjmp.simps [simp del]

text \<open>
  The check \<^verbatim>\<open>index >= 0 && return_address - (int)functions[index - 1].addr <
  MAX_FUNCTION_SIZE_BYTES\<close> reads \<^verbatim>\<open>functions[index - 1]\<close>; the subtraction is the
  machine's (it wraps).
\<close>

definition get_index_sigjmp :: "machine \<Rightarrow> 32 word \<Rightarrow> fault + int" where
  "get_index_sigjmp M return_address =
     (case scan_sigjmp M return_address 0 of
        Inl e \<Rightarrow> Inl e
      | Inr index \<Rightarrow>
          if index \<ge> 0 then
            (case functions_at M (index - 1) of
               Inl e \<Rightarrow> Inl e
             | Inr f \<Rightarrow>
                 if sint (return_address - f_addr f) < MAX_FUNCTION_SIZE_BYTES M
                 then Inr (index - 1) else Inr (- 1))
          else Inr (- 1))"

subsection \<open>\<^verbatim>\<open>is_main\<close> (write-probe revision only)\<close>

text \<open>
  \<^verbatim>\<open>!strcmp(functions[exit_index].name, "exit") || !strcmp(functions[cur_index].name,
  "_start")\<close>: the entry at \<open>exit_index\<close> is read first, the one at \<open>cur_index\<close> only
  when the first comparison fails.
\<close>

definition is_main :: "machine \<Rightarrow> int \<Rightarrow> int \<Rightarrow> fault + bool" where
  "is_main M cur_index exit_index =
     (case functions_at M exit_index of
        Inl e \<Rightarrow> Inl e
      | Inr fe \<Rightarrow>
          if f_name fe = ''exit'' then Inr True
          else (case functions_at M cur_index of
                  Inl e \<Rightarrow> Inl e
                | Inr fc \<Rightarrow> Inr (f_name fc = ''_start'')))"

section \<open>The argument formatter\<close>

abbreviation DQUOTE :: string where
  "DQUOTE \<equiv> [CHR 0x22]"

abbreviation SQUOTE :: string where
  "SQUOTE \<equiv> [CHR 0x27]"

abbreviation BACKSLASH :: string where
  "BACKSLASH \<equiv> [CHR 0x5C]"

abbreviation NEWLINE :: string where
  "NEWLINE \<equiv> [CHR 0x0A]"

text \<open>C's integer division truncates towards zero.\<close>

definition c_div :: "int \<Rightarrow> int \<Rightarrow> int" where
  "c_div a b = sgn a * sgn b * (\<bar>a\<bar> div \<bar>b\<bar>)"

text \<open>
  \<^verbatim>\<open>arg_val = (int*)(ebp + arg.offset / int_size)\<close>: \<open>ebp\<close> is an \<^verbatim>\<open>int*\<close>, so the
  quotient counts words of four bytes.
\<close>

definition arg_address :: "address \<Rightarrow> argsym \<Rightarrow> address" where
  "arg_address ebp arg = ebp + 4 * word_of_int (c_div (a_offset arg) 4)"

text \<open>
  The loop \<^verbatim>\<open>for (i = 0; i < length && i < MAX_STRING_LEN; i++) fprintf(fp, "%c",
  arg_val[i])\<close> of \<^verbatim>\<open>print_string\<close>, the same in both revisions; the result is the
  text and the final \<open>i\<close>.  \<open>flt\<close> says what an invalid access is in the revision.
\<close>

function print_chars ::
  "(address \<Rightarrow> fault) \<Rightarrow> memory \<Rightarrow> address \<Rightarrow> nat \<Rightarrow> nat \<Rightarrow> fault + (string \<times> nat)" where
  "print_chars flt m arg_val slen i =
     (if i < slen \<and> i < MAX_STRING_LEN then
        (case read8 m (arg_val + of_nat i) of
           None \<Rightarrow> Inl (flt (arg_val + of_nat i))
         | Some c \<Rightarrow>
             (case print_chars flt m arg_val slen (i + 1) of
                Inl e \<Rightarrow> Inl e
              | Inr (s, i') \<Rightarrow> Inr (char_of (uint c) # s, i')))
      else Inr ([], i))"
  by pat_completeness auto
termination
  by (relation "measure (\<lambda>(flt, m, arg_val, slen, i). MAX_STRING_LEN - i)") auto

declare print_chars.simps [simp del]

text \<open>The text between the quotes and the ellipsis of \<^verbatim>\<open>print_string\<close>.\<close>

definition quoted :: "string \<Rightarrow> nat \<Rightarrow> nat \<Rightarrow> string" where
  "quoted s i slen =
     DQUOTE @ s @ (if MAX_STRING_LEN \<le> i \<and> i < slen then ''...'' else []) @ DQUOTE"

subsection \<open>Write-probe revision\<close>

text \<open>
  \<^verbatim>\<open>isvalid\<close>: \<^verbatim>\<open>write(fd, address, 1) < 0 ? 0 : 1\<close>.  The call fails on a descriptor
  that is not open (\<^verbatim>\<open>fd\<close> is negative when \<^verbatim>\<open>open\<close> failed) and on a byte that
  cannot be read.
\<close>

definition isvalid :: "int \<Rightarrow> memory \<Rightarrow> address \<Rightarrow> bool" where
  "isvalid fd m a = (0 \<le> fd \<and> m a \<noteq> None)"

text \<open>
  The loop of \<^verbatim>\<open>is_string_print\<close>.  \<open>None\<close> is the return value 0, \<open>Some len\<close> the
  return value 1 with \<open>len\<close> stored in \<^verbatim>\<open>*length\<close>.  \<open>len\<close> is an \<^verbatim>\<open>int\<close>.
\<close>

function isp_loop_probe :: "int \<Rightarrow> memory \<Rightarrow> address \<Rightarrow> nat \<Rightarrow> fault + nat option" where
  "isp_loop_probe fd m arg_val len =
     (if \<not> isvalid fd m (arg_val + of_nat len) then Inr None
      else
        (case read8 m (arg_val + of_nat len) of
           None \<Rightarrow> Inl (SegFault (arg_val + of_nat len))
         | Some c \<Rightarrow>
             if c = 0 then Inr (Some len)
             else if \<not> isprint c then Inr None
             else if INT_MAX \<le> int len then Inl IntOverflow
             else isp_loop_probe fd m arg_val (len + 1)))"
  by pat_completeness auto
termination
  by (relation "measure (\<lambda>(fd, m, arg_val, len). nat (INT_MAX - int len))") auto

declare isp_loop_probe.simps [simp del]

definition is_string_print_probe :: "int \<Rightarrow> memory \<Rightarrow> address \<Rightarrow> fault + nat option" where
  "is_string_print_probe fd m arg_val =
     (if arg_val = 0 then Inr None else isp_loop_probe fd m arg_val 0)"

definition print_string_probe :: "int \<Rightarrow> memory \<Rightarrow> address \<Rightarrow> fault + string" where
  "print_string_probe fd m arg_val =
     (case is_string_print_probe fd m arg_val of
        Inl e \<Rightarrow> Inl e
      | Inr None \<Rightarrow> Inr (fmt_hash_x arg_val)
      | Inr (Some slen) \<Rightarrow>
          (case print_chars SegFault m arg_val slen 0 of
             Inl e \<Rightarrow> Inl e
           | Inr (s, i) \<Rightarrow> Inr (quoted s i slen)))"

text \<open>
  The loop \<^verbatim>\<open>while (arg_val[i] && i < MAX_ARRAY_LEN)\<close> of \<^verbatim>\<open>print_string_array\<close>
  together with the test \<^verbatim>\<open>arg_val[i] && i >= MAX_ARRAY_LEN\<close> that follows it: the
  element that ends the loop is the one the test reads again, and memory does not change
  in between.  \<^verbatim>\<open>arg_val[i]\<close> is read with no call to \<^verbatim>\<open>isvalid\<close>.
\<close>

function psa_loop_probe :: "int \<Rightarrow> memory \<Rightarrow> address \<Rightarrow> nat \<Rightarrow> fault + string" where
  "psa_loop_probe fd m arg_val i =
     (case read32 m (arg_val + 4 * of_nat i) of
        None \<Rightarrow> Inl (SegFault (arg_val + 4 * of_nat i))
      | Some p \<Rightarrow>
          if p \<noteq> 0 \<and> i < MAX_ARRAY_LEN then
            (case print_string_probe fd m p of
               Inl e \<Rightarrow> Inl e
             | Inr s \<Rightarrow>
                 (case psa_loop_probe fd m arg_val (i + 1) of
                    Inl e \<Rightarrow> Inl e
                  | Inr rest \<Rightarrow> Inr ((if i > 0 then '', '' else []) @ s @ rest)))
          else Inr (if p \<noteq> 0 \<and> MAX_ARRAY_LEN \<le> i then '', ...'' else []))"
  by pat_completeness auto
termination
  by (relation "measure (\<lambda>(fd, m, arg_val, i). MAX_ARRAY_LEN - i)") auto

declare psa_loop_probe.simps [simp del]

definition print_string_array_probe :: "int \<Rightarrow> memory \<Rightarrow> address \<Rightarrow> fault + string" where
  "print_string_array_probe fd m arg_val =
     (if arg_val = 0 then Inr ''0x0''
      else (case psa_loop_probe fd m arg_val 0 of
              Inl e \<Rightarrow> Inl e
            | Inr s \<Rightarrow> Inr (''{'' @ s @ ''}'')))"

text \<open>The \<^verbatim>\<open>switch\<close> of \<^verbatim>\<open>print_arguments\<close>; the frame is read with no validation.\<close>

definition print_arg_probe :: "machine \<Rightarrow> int \<Rightarrow> argsym \<Rightarrow> address \<Rightarrow> fault + string" where
  "print_arg_probe M fd arg arg_val =
     (case a_type arg of
        TYPE_CHAR \<Rightarrow>
          (case read8 (mem M) arg_val of
             None \<Rightarrow> Inl (SegFault arg_val)
           | Some c \<Rightarrow>
               Inr (if isprint c
                    then ''char '' @ a_name arg @ ''='' @ SQUOTE @ [char_of (uint c)] @ SQUOTE
                    else ''char '' @ a_name arg @ ''='' @ SQUOTE @ BACKSLASH @ fmt_o (scast c)
                           @ SQUOTE))
      | TYPE_INT \<Rightarrow>
          (case read32 (mem M) arg_val of
             None \<Rightarrow> Inl (SegFault arg_val)
           | Some w \<Rightarrow> Inr (''int '' @ a_name arg @ ''='' @ fmt_d w))
      | TYPE_FLOAT \<Rightarrow>
          (case read32 (mem M) arg_val of
             None \<Rightarrow> Inl (SegFault arg_val)
           | Some w \<Rightarrow> Inr (''float '' @ a_name arg @ ''='' @ fmt_float M w))
      | TYPE_DOUBLE \<Rightarrow>
          (case read64 (mem M) arg_val of
             None \<Rightarrow> Inl (SegFault arg_val)
           | Some w \<Rightarrow> Inr (''double '' @ a_name arg @ ''='' @ fmt_double M w))
      | TYPE_STRING \<Rightarrow>
          (case read32 (mem M) arg_val of
             None \<Rightarrow> Inl (SegFault arg_val)
           | Some p \<Rightarrow>
               (case print_string_probe fd (mem M) p of
                  Inl e \<Rightarrow> Inl e
                | Inr s \<Rightarrow> Inr (''char *'' @ a_name arg @ ''='' @ s)))
      | TYPE_STRING_ARRAY \<Rightarrow>
          (case read32 (mem M) arg_val of
             None \<Rightarrow> Inl (SegFault arg_val)
           | Some p \<Rightarrow>
               (case print_string_array_probe fd (mem M) p of
                  Inl e \<Rightarrow> Inl e
                | Inr s \<Rightarrow> Inr (''char **'' @ a_name arg @ ''='' @ s)))
      | TYPE_VOIDSTAR \<Rightarrow>
          (case read32 (mem M) arg_val of
             None \<Rightarrow> Inl (SegFault arg_val)
           | Some w \<Rightarrow> Inr (''void *'' @ a_name arg @ ''=0v'' @ fmt_x w))
      | TYPE_UNKNOWN \<Rightarrow> Inr (''UNKNOWN '' @ a_name arg @ ''='' @ fmt_hash_x arg_val))"

text \<open>
  The loop \<^verbatim>\<open>while (++index < ARGS_MAX_NUM && strlen(function.args[index].name) != 0)\<close>;
  the argument is \<open>index\<close> after the increment, the result the text and the final
  \<open>index\<close>.
\<close>

function pa_loop_probe ::
  "machine \<Rightarrow> int \<Rightarrow> functsym \<Rightarrow> address \<Rightarrow> nat \<Rightarrow> fault + (string \<times> nat)" where
  "pa_loop_probe M fd f ebp index =
     (if int index < ARGS_MAX_NUM M \<and> a_name (args_at f index) \<noteq> [] then
        (case print_arg_probe M fd (args_at f index) (arg_address ebp (args_at f index)) of
           Inl e \<Rightarrow> Inl e
         | Inr s \<Rightarrow>
             (case pa_loop_probe M fd f ebp (index + 1) of
                Inl e \<Rightarrow> Inl e
              | Inr (rest, n) \<Rightarrow> Inr ((if index > 0 then '', '' else []) @ s @ rest, n)))
      else Inr ([], index))"
  by pat_completeness auto
termination
  by (relation "measure (\<lambda>(M, fd, f, ebp, index). nat (ARGS_MAX_NUM M - int index))") auto

declare pa_loop_probe.simps [simp del]

definition print_arguments_probe ::
  "machine \<Rightarrow> int \<Rightarrow> functsym \<Rightarrow> address \<Rightarrow> fault + string" where
  "print_arguments_probe M fd f ebp =
     (case pa_loop_probe M fd f ebp 0 of
        Inl e \<Rightarrow> Inl e
      | Inr (s, index) \<Rightarrow> Inr (if index = 0 then ''void'' else s))"

subsection \<open>Signal revision\<close>

text \<open>
  The global \<^verbatim>\<open>jump_to\<close> names the \<^verbatim>\<open>sigsetjmp\<close> that armed it last: the one at the
  head of the loop of \<^verbatim>\<open>traceback\<close>, the one of \<^verbatim>\<open>print_string_array\<close>, the one of
  \<^verbatim>\<open>is_string_print\<close>, or (\<open>Dead\<close>) one whose function has returned since.
\<close>

datatype jump_site = AtLoop | AtArray | AtString | Dead

text \<open>
  An access under the handler: the value read; or \<open>Caught\<close>, when the access is invalid
  and \<^verbatim>\<open>SIGSEGV_handler\<close> jumps to the live \<^verbatim>\<open>sigsetjmp\<close>; or \<open>Undefined\<close>, when it
  jumps to a dead one.
\<close>

datatype 'a guarded = Val 'a | Caught | Undefined fault

definition guard :: "jump_site \<Rightarrow> address \<Rightarrow> 'a option \<Rightarrow> 'a guarded" where
  "guard j a r =
     (case r of
        Some v \<Rightarrow> Val v
      | None \<Rightarrow> if j = Dead then Undefined (StaleJump a) else Caught)"

text \<open>
  \<^verbatim>\<open>is_string_print\<close>, after \<^verbatim>\<open>if (sigsetjmp(jump_to, 1) || !arg_val) return 0\<close>:
  an invalid access resumes at that \<^verbatim>\<open>sigsetjmp\<close>, which then returns 0.
\<close>

function isp_loop_sigjmp :: "memory \<Rightarrow> address \<Rightarrow> nat \<Rightarrow> fault + nat option" where
  "isp_loop_sigjmp m arg_val len =
     (case read8 m (arg_val + of_nat len) of
        None \<Rightarrow> Inr None
      | Some c \<Rightarrow>
          if c = 0 then Inr (Some len)
          else if \<not> isprint c then Inr None
          else if INT_MAX \<le> int len then Inl IntOverflow
          else isp_loop_sigjmp m arg_val (len + 1))"
  by pat_completeness auto
termination
  by (relation "measure (\<lambda>(m, arg_val, len). nat (INT_MAX - int len))") auto

declare isp_loop_sigjmp.simps [simp del]

definition is_string_print_sigjmp :: "memory \<Rightarrow> address \<Rightarrow> fault + nat option" where
  "is_string_print_sigjmp m arg_val =
     (if arg_val = 0 then Inr None else isp_loop_sigjmp m arg_val 0)"

text \<open>
  \<^verbatim>\<open>print_string\<close>: when \<^verbatim>\<open>is_string_print\<close> has returned, \<^verbatim>\<open>jump_to\<close> is dead, and
  the characters are read again.
\<close>

definition print_string_sigjmp :: "memory \<Rightarrow> address \<Rightarrow> fault + string" where
  "print_string_sigjmp m arg_val =
     (case is_string_print_sigjmp m arg_val of
        Inl e \<Rightarrow> Inl e
      | Inr None \<Rightarrow> Inr (''0x'' @ fmt_x arg_val)
      | Inr (Some slen) \<Rightarrow>
          (case print_chars StaleJump m arg_val slen 0 of
             Inl e \<Rightarrow> Inl e
           | Inr (s, i) \<Rightarrow> Inr (quoted s i slen)))"

text \<open>
  The first loop of \<^verbatim>\<open>print_string_array\<close>, which only reads \<^verbatim>\<open>arg_val[0]\<close> to
  \<^verbatim>\<open>arg_val[MAX_ARRAY_LEN - 1]\<close> up to the first null: \<open>False\<close> when one of the
  reads is invalid.
\<close>

function psa_check :: "memory \<Rightarrow> address \<Rightarrow> nat \<Rightarrow> bool" where
  "psa_check m arg_val i =
     (if i < MAX_ARRAY_LEN then
        (case read32 m (arg_val + 4 * of_nat i) of
           None \<Rightarrow> False
         | Some p \<Rightarrow> if p = 0 then True else psa_check m arg_val (i + 1))
      else True)"
  by pat_completeness auto
termination
  by (relation "measure (\<lambda>(m, arg_val, i). MAX_ARRAY_LEN - i)") auto

declare psa_check.simps [simp del]

text \<open>
  The second loop and the test after it.  The \<^verbatim>\<open>sigsetjmp\<close> of \<^verbatim>\<open>print_string_array\<close>
  is live until the first call of \<^verbatim>\<open>print_string\<close>, that is for \<open>i = 0\<close> only.
\<close>

function psa_loop_sigjmp :: "memory \<Rightarrow> address \<Rightarrow> nat \<Rightarrow> string guarded" where
  "psa_loop_sigjmp m arg_val i =
     (case guard (if i = 0 then AtArray else Dead) (arg_val + 4 * of_nat i)
             (read32 m (arg_val + 4 * of_nat i)) of
        Caught \<Rightarrow> Caught
      | Undefined e \<Rightarrow> Undefined e
      | Val p \<Rightarrow>
          if p \<noteq> 0 \<and> i < MAX_ARRAY_LEN then
            (case print_string_sigjmp m p of
               Inl e \<Rightarrow> Undefined e
             | Inr s \<Rightarrow>
                 (case psa_loop_sigjmp m arg_val (i + 1) of
                    Val rest \<Rightarrow> Val ((if i > 0 then '', '' else []) @ s @ rest)
                  | Caught \<Rightarrow> Caught
                  | Undefined e \<Rightarrow> Undefined e))
          else Val (if p \<noteq> 0 \<and> MAX_ARRAY_LEN \<le> i then '', ...'' else []))"
  by pat_completeness auto
termination
  by (relation "measure (\<lambda>(m, arg_val, i). MAX_ARRAY_LEN - i)") auto

declare psa_loop_sigjmp.simps [simp del]

definition print_string_array_sigjmp :: "memory \<Rightarrow> address \<Rightarrow> fault + string" where
  "print_string_array_sigjmp m arg_val =
     (if arg_val = 0 then Inr ''0x0''
      else if \<not> psa_check m arg_val 0 then Inr (fmt_hash_x arg_val)
      else (case psa_loop_sigjmp m arg_val 0 of
              Val s \<Rightarrow> Inr (''{'' @ s @ ''}'')
            | Caught \<Rightarrow> Inr (''{'' @ fmt_hash_x arg_val)
            | Undefined e \<Rightarrow> Inl e))"

text \<open>
  The \<^verbatim>\<open>switch\<close> of \<^verbatim>\<open>print_arguments\<close> under the value \<open>j\<close> of \<^verbatim>\<open>jump_to\<close>.  The
  result is the text written and how the case ended: \<open>Val j'\<close> with the value of
  \<^verbatim>\<open>jump_to\<close> afterwards, or \<open>Caught\<close> when an invalid access resumed at the head of
  the loop of \<^verbatim>\<open>traceback\<close> (what was written before stays in the stream: for a string
  and a string array the type and the name are written before the frame is read).
\<close>

definition print_arg_sigjmp ::
  "machine \<Rightarrow> jump_site \<Rightarrow> argsym \<Rightarrow> address \<Rightarrow> string \<times> jump_site guarded" where
  "print_arg_sigjmp M j arg arg_val =
     (case a_type arg of
        TYPE_CHAR \<Rightarrow>
          (case guard j arg_val (read8 (mem M) arg_val) of
             Caught \<Rightarrow> ([], Caught)
           | Undefined e \<Rightarrow> ([], Undefined e)
           | Val c \<Rightarrow>
               (if isprint c
                then ''char '' @ a_name arg @ ''='' @ SQUOTE @ [char_of (uint c)] @ SQUOTE
                else ''char '' @ a_name arg @ ''='' @ SQUOTE @ BACKSLASH @ fmt_o (scast c)
                       @ SQUOTE, Val j))
      | TYPE_INT \<Rightarrow>
          (case guard j arg_val (read32 (mem M) arg_val) of
             Caught \<Rightarrow> ([], Caught)
           | Undefined e \<Rightarrow> ([], Undefined e)
           | Val w \<Rightarrow> (''int '' @ a_name arg @ ''='' @ fmt_d w, Val j))
      | TYPE_FLOAT \<Rightarrow>
          (case guard j arg_val (read32 (mem M) arg_val) of
             Caught \<Rightarrow> ([], Caught)
           | Undefined e \<Rightarrow> ([], Undefined e)
           | Val w \<Rightarrow> (''float '' @ a_name arg @ ''='' @ fmt_float M w, Val j))
      | TYPE_DOUBLE \<Rightarrow>
          (case guard j arg_val (read64 (mem M) arg_val) of
             Caught \<Rightarrow> ([], Caught)
           | Undefined e \<Rightarrow> ([], Undefined e)
           | Val w \<Rightarrow> (''double '' @ a_name arg @ ''='' @ fmt_double M w, Val j))
      | TYPE_STRING \<Rightarrow>
          (case guard j arg_val (read32 (mem M) arg_val) of
             Caught \<Rightarrow> (''char *'' @ a_name arg @ ''='', Caught)
           | Undefined e \<Rightarrow> (''char *'' @ a_name arg @ ''='', Undefined e)
           | Val p \<Rightarrow>
               (case print_string_sigjmp (mem M) p of
                  Inl e \<Rightarrow> (''char *'' @ a_name arg @ ''='', Undefined e)
                | Inr s \<Rightarrow> (''char *'' @ a_name arg @ ''='' @ s, Val Dead)))
      | TYPE_STRING_ARRAY \<Rightarrow>
          (case guard j arg_val (read32 (mem M) arg_val) of
             Caught \<Rightarrow> (''char **'' @ a_name arg @ ''='', Caught)
           | Undefined e \<Rightarrow> (''char **'' @ a_name arg @ ''='', Undefined e)
           | Val p \<Rightarrow>
               (case print_string_array_sigjmp (mem M) p of
                  Inl e \<Rightarrow> (''char **'' @ a_name arg @ ''='', Undefined e)
                | Inr s \<Rightarrow> (''char **'' @ a_name arg @ ''='' @ s, Val Dead)))
      | TYPE_VOIDSTAR \<Rightarrow>
          (case guard j arg_val (read32 (mem M) arg_val) of
             Caught \<Rightarrow> ([], Caught)
           | Undefined e \<Rightarrow> ([], Undefined e)
           | Val w \<Rightarrow> (''void *'' @ a_name arg @ ''=0v'' @ fmt_x w, Val j))
      | TYPE_UNKNOWN \<Rightarrow> (''UNKNOWN '' @ a_name arg @ ''='' @ fmt_hash_x arg_val, Val j))"

text \<open>
  The loop of \<^verbatim>\<open>print_arguments\<close>: the text written and how the loop ended, \<open>Val index\<close>
  at its end.
\<close>

function pa_loop_sigjmp ::
  "machine \<Rightarrow> jump_site \<Rightarrow> functsym \<Rightarrow> address \<Rightarrow> nat \<Rightarrow> string \<times> nat guarded" where
  "pa_loop_sigjmp M j f ebp index =
     (if int index < ARGS_MAX_NUM M \<and> a_name (args_at f index) \<noteq> [] then
        (case print_arg_sigjmp M j (args_at f index) (arg_address ebp (args_at f index)) of
           (s, Caught) \<Rightarrow> ((if index > 0 then '', '' else []) @ s, Caught)
         | (s, Undefined e) \<Rightarrow> ((if index > 0 then '', '' else []) @ s, Undefined e)
         | (s, Val j') \<Rightarrow>
             (case pa_loop_sigjmp M j' f ebp (index + 1) of
                (rest, r) \<Rightarrow> ((if index > 0 then '', '' else []) @ s @ rest, r)))
      else ([], Val index))"
  by pat_completeness auto
termination
  by (relation "measure (\<lambda>(M, j, f, ebp, index). nat (ARGS_MAX_NUM M - int index))") auto

declare pa_loop_sigjmp.simps [simp del]

definition print_arguments_sigjmp ::
  "machine \<Rightarrow> functsym \<Rightarrow> address \<Rightarrow> string \<times> unit guarded" where
  "print_arguments_sigjmp M f ebp =
     (case pa_loop_sigjmp M AtLoop f ebp 0 of
        (s, Val index) \<Rightarrow> (if index = 0 then ''void'' else s, Val ())
      | (s, Caught) \<Rightarrow> (s, Caught)
      | (s, Undefined e) \<Rightarrow> (s, Undefined e))"

section \<open>The frame walker\<close>

text \<open>
  The state of the loop of \<^verbatim>\<open>traceback\<close>: at a frame pointer with the text written to
  \<^verbatim>\<open>fp\<close> so far; left by a \<^verbatim>\<open>break\<close>; ended by a fault; or, for the set-up of
  the signal revision, ended by \<^verbatim>\<open>exit(-1)\<close>.
\<close>

datatype walk = Walking address string | Done string | Crashed fault | Exited string

definition FATAL :: string where
  "FATAL = ''FATAL: Stack Wrong!'' @ NEWLINE"

definition unresolved_line :: "32 word \<Rightarrow> string" where
  "unresolved_line return_address = ''Function 0x'' @ fmt_x return_address @ ''(...), in'' @ NEWLINE"

definition frame_line :: "functsym \<Rightarrow> string \<Rightarrow> string" where
  "frame_line f s = ''Function '' @ f_name f @ ''('' @ s @ ''), in'' @ NEWLINE"

subsection \<open>Write-probe revision\<close>

text \<open>
  One iteration of \<^verbatim>\<open>while (1)\<close>.  The frame and the word at \<^verbatim>\<open>return_address + 4\<close>
  are read with no validation.
\<close>

definition step_probe :: "machine \<Rightarrow> int \<Rightarrow> address \<Rightarrow> string \<Rightarrow> walk" where
  "step_probe M fd ebp out =
     (case read32 (mem M) ebp of
        None \<Rightarrow> Crashed (SegFault ebp)
      | Some old_ebp \<Rightarrow>
     (case read32 (mem M) (ebp + 4) of
        None \<Rightarrow> Crashed (SegFault (ebp + 4))
      | Some return_address \<Rightarrow>
     if old_ebp \<le> ebp then Done (out @ FATAL)
     else
     (case get_index_probe M return_address of
        Inl e \<Rightarrow> Crashed e
      | Inr index \<Rightarrow>
     if index < 0 then Walking old_ebp (out @ unresolved_line return_address)
     else
     (case functions_at M index of
        Inl e \<Rightarrow> Crashed e
      | Inr curr_function \<Rightarrow>
     (case read32 (mem M) (return_address + 4) of
        None \<Rightarrow> Crashed (SegFault (return_address + 4))
      | Some operand \<Rightarrow>
     (case get_index_probe M (return_address + operand + 8) of
        Inl e \<Rightarrow> Crashed e
      | Inr exit_index \<Rightarrow>
     (case is_main M index exit_index of
        Inl e \<Rightarrow> Crashed e
      | Inr True \<Rightarrow> Done out
      | Inr False \<Rightarrow>
     (case print_arguments_probe M fd curr_function old_ebp of
        Inl e \<Rightarrow> Crashed e
      | Inr s \<Rightarrow> Walking old_ebp (out @ frame_line curr_function s)))))))))"

text \<open>
  The loop goes on only to a frame pointer above the current one, so the distance to the
  top of the address space decreases.
\<close>

fun distance_probe :: "walk \<Rightarrow> nat" where
  "distance_probe (Walking ebp out) = 2 ^ 32 - unat ebp"
| "distance_probe (Done out) = 0"
| "distance_probe (Crashed e) = 0"
| "distance_probe (Exited out) = 0"

function loop_probe :: "machine \<Rightarrow> int \<Rightarrow> walk \<Rightarrow> walk" where
  "loop_probe M fd (Walking ebp out) = loop_probe M fd (step_probe M fd ebp out)"
| "loop_probe M fd (Done out) = Done out"
| "loop_probe M fd (Crashed e) = Crashed e"
| "loop_probe M fd (Exited out) = Exited out"
  by pat_completeness auto
termination
proof (relation "measure (\<lambda>(M, fd, w). distance_probe w)")
  show "wf (measure (\<lambda>(M, fd, w). distance_probe w))"
    by simp
next
  fix M :: machine and fd :: int and ebp :: address and out :: string
  have bound: "unat ebp < 2 ^ 32" using unsigned_less[of ebp] by simp
  have "distance_probe (step_probe M fd ebp out) < 2 ^ 32 - unat ebp"
  proof (cases "step_probe M fd ebp out")
    case (Walking e out')
    then have "ebp < e"
      by (auto simp: step_probe_def split: option.splits sum.splits if_splits bool.splits)
    then have "unat ebp < unat e" by (simp add: word_less_nat_alt)
    moreover have "unat e < 2 ^ 32" using unsigned_less[of e] by simp
    ultimately show ?thesis using Walking by simp
  next
    case (Done out')
    then show ?thesis using bound by simp
  next
    case (Crashed e)
    then show ?thesis using bound by simp
  next
    case (Exited out')
    then show ?thesis using bound by simp
  qed
  then show "((M, fd, step_probe M fd ebp out), (M, fd, Walking ebp out))
      \<in> measure (\<lambda>(M, fd, w). distance_probe w)"
    by simp
qed

text \<open>
  The file \<^verbatim>\<open>a.out\<close> of the current directory, which \<^verbatim>\<open>traceback\<close> opens, writes to
  and removes: absent, or present and then open for writing to this process or not
  (\<^verbatim>\<open>EACCES\<close>, \<^verbatim>\<open>ETXTBSY\<close>).  \<open>dir_writable\<close> says whether entries of the directory can
  be made and removed, \<open>next_fd\<close> is the descriptor the next successful \<^verbatim>\<open>open\<close> returns,
  and \<open>created_writable\<close> stands for the permissions of a file the call creates, which
  it leaves unspecified (no mode argument is passed).
\<close>

datatype file_state = Absent | Present bool

record os =
  probe_file :: file_state
  dir_writable :: bool
  next_fd :: nat
  created_writable :: bool

text \<open>\<^verbatim>\<open>open(filepath, O_CREAT|O_WRONLY)\<close>: the descriptor, or \<open>-1\<close>, and the new state.\<close>

definition sys_open :: "os \<Rightarrow> int \<times> os" where
  "sys_open s =
     (case probe_file s of
        Present True \<Rightarrow> (int (next_fd s), s)
      | Present False \<Rightarrow> (- 1, s)
      | Absent \<Rightarrow>
          if dir_writable s
          then (int (next_fd s), s\<lparr>probe_file := Present (created_writable s)\<rparr>)
          else (- 1, s))"

text \<open>\<^verbatim>\<open>remove(filepath)\<close>: the entry goes when the directory allows it.\<close>

definition sys_remove :: "os \<Rightarrow> os" where
  "sys_remove s = (if dir_writable s then s\<lparr>probe_file := Absent\<rparr> else s)"

text \<open>
  \<^verbatim>\<open>traceback\<close>: the global \<^verbatim>\<open>fd\<close> is assigned the result of \<^verbatim>\<open>open\<close> before the walk
  (a failure is reported on \<^verbatim>\<open>stderr\<close> and the walk goes on); when the loop has been
  left, the file is closed and removed, which writes nothing to \<^verbatim>\<open>fp\<close>.  \<open>ebp\<close> is the
  value \<^verbatim>\<open>trace_init_ebp\<close> returns.  The result is the final state of the walk, the state
  of the file and the value of the global \<^verbatim>\<open>fd\<close>; a walk that a fault ended never
  reaches \<^verbatim>\<open>remove\<close>.
\<close>

definition traceback_probe :: "machine \<Rightarrow> os \<Rightarrow> int \<Rightarrow> address \<Rightarrow> walk \<times> os \<times> int" where
  "traceback_probe M s fd0 ebp =
     (case sys_open s of
        (fd, s1) \<Rightarrow>
          (case loop_probe M fd (Walking ebp []) of
             Done out \<Rightarrow> (Done out, sys_remove s1, fd)
           | w \<Rightarrow> (w, s1, fd)))"

subsection \<open>Signal revision\<close>

text \<open>
  One iteration of \<^verbatim>\<open>while (1)\<close>.  \<^verbatim>\<open>sigsetjmp(jump_to, 1)\<close> at its head arms
  \<^verbatim>\<open>jump_to\<close>; an invalid access before \<^verbatim>\<open>print_arguments\<close> resumes there and the loop
  is left.  The result of the second \<^verbatim>\<open>get_index\<close> is stored in \<^verbatim>\<open>exit\<close> and not used.
\<close>

definition step_sigjmp :: "machine \<Rightarrow> address \<Rightarrow> string \<Rightarrow> walk" where
  "step_sigjmp M ebp out =
     (if ebp = 0 then Done out
      else
     (case read32 (mem M) ebp of
        None \<Rightarrow> Done out
      | Some old_ebp \<Rightarrow>
     (case read32 (mem M) (ebp + 4) of
        None \<Rightarrow> Done out
      | Some return_address \<Rightarrow>
     if old_ebp \<noteq> 0 \<and> old_ebp \<le> ebp then Done (out @ FATAL)
     else
     (case get_index_sigjmp M return_address of
        Inl e \<Rightarrow> Crashed e
      | Inr index \<Rightarrow>
     if index < 0 then Walking old_ebp (out @ unresolved_line return_address)
     else
     (case functions_at M index of
        Inl e \<Rightarrow> Crashed e
      | Inr curr_function \<Rightarrow>
     (case read32 (mem M) (return_address + 4) of
        None \<Rightarrow> Done out
      | Some operand \<Rightarrow>
     (case get_index_sigjmp M (return_address + operand + 8) of
        Inl e \<Rightarrow> Crashed e
      | Inr exit_index \<Rightarrow>
     (case print_arguments_sigjmp M curr_function old_ebp of
        (s, Val u) \<Rightarrow> Walking old_ebp (out @ frame_line curr_function s)
      | (s, Caught) \<Rightarrow> Done (out @ ''Function '' @ f_name curr_function @ ''('' @ s)
      | (s, Undefined e) \<Rightarrow> Crashed e))))))))"

text \<open>
  The loop goes on to a frame pointer above the current one or to the null frame
  pointer, where it ends.
\<close>

fun distance_sigjmp :: "walk \<Rightarrow> nat" where
  "distance_sigjmp (Walking ebp out) = (if ebp = 0 then 1 else 2 + (2 ^ 32 - unat ebp))"
| "distance_sigjmp (Done out) = 0"
| "distance_sigjmp (Crashed e) = 0"
| "distance_sigjmp (Exited out) = 0"

function loop_sigjmp :: "machine \<Rightarrow> walk \<Rightarrow> walk" where
  "loop_sigjmp M (Walking ebp out) = loop_sigjmp M (step_sigjmp M ebp out)"
| "loop_sigjmp M (Done out) = Done out"
| "loop_sigjmp M (Crashed e) = Crashed e"
| "loop_sigjmp M (Exited out) = Exited out"
  by pat_completeness auto
termination
proof (relation "measure (\<lambda>(M, w). distance_sigjmp w)")
  show "wf (measure (\<lambda>(M, w). distance_sigjmp w))"
    by simp
next
  fix M :: machine and ebp :: address and out :: string
  have "distance_sigjmp (step_sigjmp M ebp out) < distance_sigjmp (Walking ebp out)"
  proof (cases "step_sigjmp M ebp out")
    case (Walking e out')
    then have nz: "ebp \<noteq> 0" and up: "e = 0 \<or> ebp < e"
      by (auto simp: step_sigjmp_def split: option.splits sum.splits if_splits prod.splits guarded.splits)
    show ?thesis
    proof (cases "e = 0")
      case True
      then show ?thesis using Walking nz by simp
    next
      case False
      with up have "unat ebp < unat e" by (simp add: word_less_nat_alt)
      moreover have "unat e < 2 ^ 32" using unsigned_less[of e] by simp
      ultimately show ?thesis using Walking nz False by simp
    qed
  next
    case (Done out')
    then show ?thesis by simp
  next
    case (Crashed e)
    then show ?thesis by simp
  next
    case (Exited out')
    then show ?thesis by simp
  qed
  then show "((M, step_sigjmp M ebp out), (M, Walking ebp out))
      \<in> measure (\<lambda>(M, w). distance_sigjmp w)"
    by simp
qed

text \<open>
  \<^verbatim>\<open>traceback\<close> with \<^verbatim>\<open>SIGSEGV_handler_setup\<close>: a failure of \<^verbatim>\<open>sigaction\<close> or of
  \<^verbatim>\<open>sigprocmask\<close> writes a message and ends the process.  The second component is the
  value of the global \<^verbatim>\<open>jump_to\<close> afterwards: it is armed only by functions that have
  returned by then.
\<close>

definition traceback_sigjmp :: "machine \<Rightarrow> jump_site \<Rightarrow> address \<Rightarrow> walk \<times> jump_site" where
  "traceback_sigjmp M jump_to ebp =
     (if sigaction_result M < 0 then (Exited ''Setting up handler failed: sigaction'', jump_to)
      else if sigprocmask_result M < 0
      then (Exited ''Setting up handler failed: sigprocmask'', jump_to)
      else (loop_sigjmp M (Walking ebp []), Dead))"

section \<open>Notions used to state the properties\<close>

text \<open>
  The descriptors of the table: the entries before the first one with an empty name,
  within the capacity.
\<close>

definition live :: "machine \<Rightarrow> functsym list" where
  "live M = takeWhile (\<lambda>f. f_name f \<noteq> []) (take (nat (FUNCTS_MAX_NUM M)) (functions M))"

text \<open>The number of leading descriptors whose start does not exceed the address.\<close>

definition stop :: "machine \<Rightarrow> 32 word \<Rightarrow> nat" where
  "stop M ra = length (takeWhile (\<lambda>f. \<not> ra <s f_addr f) (live M))"

text \<open>
  The precondition on the table: the starts of the descriptors are strictly ascending
  and, read as \<^verbatim>\<open>int\<close> like the code reads them, not negative; the size bound is
  positive.
\<close>

definition table_ok :: "machine \<Rightarrow> bool" where
  "table_ok M =
     (sorted_wrt (<) (map (\<lambda>f. sint (f_addr f)) (live M)) \<and>
      (\<forall>f \<in> set (live M). 0 \<le> sint (f_addr f)) \<and>
      0 < MAX_FUNCTION_SIZE_BYTES M)"

text \<open>The range a descriptor covers: from its start, less than the size bound.\<close>

definition covers :: "machine \<Rightarrow> functsym \<Rightarrow> 32 word \<Rightarrow> bool" where
  "covers M f a =
     (sint (f_addr f) \<le> sint a \<and> sint a - sint (f_addr f) < MAX_FUNCTION_SIZE_BYTES M)"

text \<open>
  A resolved frame of the signal revision: the frame pointer is not null, the two words
  of the frame can be read, the saved frame pointer is null or above the frame, and the
  lookup of the return address gives the index of the descriptor \<open>f\<close>.
\<close>

definition resolved_sigjmp ::
  "machine \<Rightarrow> address \<Rightarrow> address \<Rightarrow> 32 word \<Rightarrow> int \<Rightarrow> functsym \<Rightarrow> bool" where
  "resolved_sigjmp M ebp old_ebp return_address index f =
     (ebp \<noteq> 0 \<and> read32 (mem M) ebp = Some old_ebp \<and>
      read32 (mem M) (ebp + 4) = Some return_address \<and> (old_ebp = 0 \<or> ebp < old_ebp) \<and>
      get_index_sigjmp M return_address = Inr index \<and> 0 \<le> index \<and>
      functions_at M index = Inr f)"

text \<open>
  A resolved frame of the write-probe revision: the same, with no test of a null frame
  pointer and a saved frame pointer above the frame.
\<close>

definition resolved_probe ::
  "machine \<Rightarrow> address \<Rightarrow> address \<Rightarrow> 32 word \<Rightarrow> int \<Rightarrow> functsym \<Rightarrow> bool" where
  "resolved_probe M ebp old_ebp return_address index f =
     (read32 (mem M) ebp = Some old_ebp \<and>
      read32 (mem M) (ebp + 4) = Some return_address \<and> ebp < old_ebp \<and>
      get_index_probe M return_address = Inr index \<and> 0 \<le> index \<and>
      functions_at M index = Inr f)"

subsection \<open>Example machines\<close>

definition store32 :: "memory \<Rightarrow> address \<Rightarrow> 32 word \<Rightarrow> memory" where
  "store32 m a w =
     m(a \<mapsto> ucast w, a + 1 \<mapsto> ucast (drop_bit 8 w), a + 2 \<mapsto> ucast (drop_bit 16 w),
       a + 3 \<mapsto> ucast (drop_bit 24 w))"

definition table2 :: "memory \<Rightarrow> machine" where
  "table2 m =
     \<lparr>functions = [\<lparr>f_addr = 0x1000, f_name = ''f'', f_args = []\<rparr>,
                    \<lparr>f_addr = 0x900000, f_name = ''g'', f_args = []\<rparr>],
      FUNCTS_MAX_NUM = 4, ARGS_MAX_NUM = 6, MAX_FUNCTION_SIZE_BYTES = 0x100000,
      mem = m, sigaction_result = 0, sigprocmask_result = 0,
      fmt_float = (\<lambda>w. []), fmt_double = (\<lambda>w. [])\<rparr>"

definition table3 :: "memory \<Rightarrow> machine" where
  "table3 m =
     \<lparr>functions = [\<lparr>f_addr = 0x1000, f_name = ''_start'', f_args = []\<rparr>,
                    \<lparr>f_addr = 0x2000, f_name = ''main'', f_args = []\<rparr>,
                    \<lparr>f_addr = 0x3000, f_name = ''exit'', f_args = []\<rparr>],
      FUNCTS_MAX_NUM = 8, ARGS_MAX_NUM = 6, MAX_FUNCTION_SIZE_BYTES = 0x100000,
      mem = m, sigaction_result = 0, sigprocmask_result = 0,
      fmt_float = (\<lambda>w. []), fmt_double = (\<lambda>w. [])\<rparr>"

text \<open>
  A frame at \<open>0xbf00\<close> whose caller's frame is at \<open>0xbf20\<close> and whose return address
  \<open>0x1010\<close> lies in \<^verbatim>\<open>_start\<close>; the word after the return address makes the exit address
  \<open>0x3000\<close>.
\<close>

definition frame_in_start :: memory where
  "frame_in_start =
     store32 (store32 (store32 Map.empty 0xbf00 0xbf20) 0xbf04 0x1010) 0x1014 0x1fe8"

text \<open>The table of \<open>table3\<close> with one more descriptor after \<^verbatim>\<open>exit\<close>.\<close>

definition table4 :: "memory \<Rightarrow> machine" where
  "table4 m =
     \<lparr>functions = [\<lparr>f_addr = 0x1000, f_name = ''_start'', f_args = []\<rparr>,
                    \<lparr>f_addr = 0x2000, f_name = ''main'', f_args = []\<rparr>,
                    \<lparr>f_addr = 0x3000, f_name = ''exit'', f_args = []\<rparr>,
                    \<lparr>f_addr = 0x4000, f_name = ''_fini'', f_args = []\<rparr>],
      FUNCTS_MAX_NUM = 8, ARGS_MAX_NUM = 6, MAX_FUNCTION_SIZE_BYTES = 0x100000,
      mem = m, sigaction_result = 0, sigprocmask_result = 0,
      fmt_float = (\<lambda>w. []), fmt_double = (\<lambda>w. [])\<rparr>"

text \<open>
  A frame whose return address \<open>0x2010\<close> lies in \<^verbatim>\<open>main\<close>; the exit address is
  \<open>0x2018\<close>, in \<^verbatim>\<open>main\<close> too.
\<close>

definition frame_in_main :: memory where
  "frame_in_main =
     store32 (store32 (store32 Map.empty 0xbf00 0xbf20) 0xbf04 0x2010) 0x2014 0"

text \<open>A frame at \<open>0xbf00\<close> whose saved frame pointer \<open>0xbe00\<close> is below it.\<close>

definition frame_corrupt :: memory where
  "frame_corrupt = store32 (store32 Map.empty 0xbf00 0xbe00) 0xbf04 0x1010"

text \<open>
  A frame at \<open>0xbf00\<close> whose saved frame pointer \<open>0xbf20\<close> is above it and whose return
  address \<open>0xb00000\<close> no revision resolves in \<open>table2\<close>.
\<close>

definition frame_unresolved :: memory where
  "frame_unresolved = store32 (store32 Map.empty 0xbf00 0xbf20) 0xbf04 0xB00000"

subsection \<open>Strings and arrays in memory\<close>

text \<open>The characters of \<open>s\<close>, none of them null, lie in memory from \<open>p\<close> on.\<close>

fun prefix_at :: "memory \<Rightarrow> address \<Rightarrow> string \<Rightarrow> bool" where
  "prefix_at m p [] = True"
| "prefix_at m p (c # cs) = (m p = Some (of_char c) \<and> of_char c \<noteq> (0 :: byte) \<and> prefix_at m (p + 1) cs)"

text \<open>A null-terminated string \<open>s\<close> lies at \<open>p\<close>.\<close>

definition string_at :: "memory \<Rightarrow> address \<Rightarrow> string \<Rightarrow> bool" where
  "string_at m p s = (prefix_at m p s \<and> m (p + of_nat (length s)) = Some 0)"

text \<open>Every character of \<open>s\<close> satisfies \<^verbatim>\<open>isprint\<close>.\<close>

definition printable :: "string \<Rightarrow> bool" where
  "printable s = (\<forall>c \<in> set s. isprint (of_char c))"

text \<open>The memory \<open>m\<close> with the string \<open>s\<close> and its terminator written at \<open>p\<close>.\<close>

fun store_string :: "memory \<Rightarrow> address \<Rightarrow> string \<Rightarrow> memory" where
  "store_string m p [] = m(p \<mapsto> 0)"
| "store_string m p (c # cs) = store_string (m(p \<mapsto> of_char c)) (p + 1) cs"

text \<open>
  Example memories: the string \<^verbatim>\<open>hi\<close> at \<open>0x6000\<close>; strings of 30 and of 25 characters at
  \<open>0x7000\<close>; arrays at \<open>0x5000\<close> of one pointer to \<^verbatim>\<open>hi\<close> with a null after it, and of
  four pointers to \<^verbatim>\<open>hi\<close>.
\<close>

definition mem_hi :: memory where
  "mem_hi = store_string Map.empty 0x6000 ''hi''"

definition mem_long :: memory where
  "mem_long = store_string Map.empty 0x7000 ''abcdefghijklmnopqrstuvwxyz0123''"

definition mem_25 :: memory where
  "mem_25 = store_string Map.empty 0x7000 ''abcdefghijklmnopqrstuvwxy''"

text \<open>The words \<open>ws\<close> lie in memory from \<open>p\<close> on, as the elements of a \<^verbatim>\<open>char **\<close>.\<close>

fun cells_at :: "memory \<Rightarrow> address \<Rightarrow> 32 word list \<Rightarrow> bool" where
  "cells_at m p [] = True"
| "cells_at m p (w # ws) = (read32 m p = Some w \<and> cells_at m (p + 4) ws)"

text \<open>A list of renderings joined by a comma and a space.\<close>

fun commas :: "string list \<Rightarrow> string" where
  "commas [] = []"
| "commas [t] = t"
| "commas (t # ts) = t @ '', '' @ commas ts"

text \<open>The same with the separator before every element.\<close>

fun comma_each :: "string list \<Rightarrow> string" where
  "comma_each [] = []"
| "comma_each (t # ts) = '', '' @ t @ comma_each ts"

definition mem_argv :: memory where
  "mem_argv = store32 (store32 mem_hi 0x5000 0x6000) 0x5004 0"

definition mem_argv4 :: memory where
  "mem_argv4 =
     store32 (store32 (store32 (store32 mem_hi 0x5000 0x6000) 0x5004 0x6000) 0x5008 0x6000)
       0x500c 0x6000"

text \<open>
  A call chain \<^verbatim>\<open>_start\<close>, \<^verbatim>\<open>main\<close>, \<^verbatim>\<open>a\<close>, \<^verbatim>\<open>b\<close>, where \<^verbatim>\<open>b\<close> takes \<^verbatim>\<open>int x\<close> and
  \<^verbatim>\<open>char *s\<close> and has called \<^verbatim>\<open>traceback\<close> with \<open>x = 5\<close> and \<open>s\<close> pointing to \<^verbatim>\<open>hi\<close>.
\<close>

definition table_chain :: "memory \<Rightarrow> machine" where
  "table_chain m =
     \<lparr>functions = [\<lparr>f_addr = 0x1000, f_name = ''_start'', f_args = []\<rparr>,
                    \<lparr>f_addr = 0x2000, f_name = ''main'', f_args = []\<rparr>,
                    \<lparr>f_addr = 0x2800, f_name = ''a'', f_args = []\<rparr>,
                    \<lparr>f_addr = 0x3000, f_name = ''b'', f_args =
                       [\<lparr>a_type = TYPE_INT, a_offset = 8, a_name = ''x''\<rparr>,
                        \<lparr>a_type = TYPE_STRING, a_offset = 12, a_name = ''s''\<rparr>]\<rparr>,
                    \<lparr>f_addr = 0x4000, f_name = ''exit'', f_args = []\<rparr>,
                    \<lparr>f_addr = 0x5000, f_name = ''_fini'', f_args = []\<rparr>],
      FUNCTS_MAX_NUM = 8, ARGS_MAX_NUM = 6, MAX_FUNCTION_SIZE_BYTES = 0x100000,
      mem = m, sigaction_result = 0, sigprocmask_result = 0,
      fmt_float = (\<lambda>w. []), fmt_double = (\<lambda>w. [])\<rparr>"

definition stack_chain :: memory where
  "stack_chain =
     store32 (store32 (store32 (store32 (store32 (store32 (store32 (store32 (store32 (store32
     (store32 (store32 (store32 (store32 mem_hi
       0xbf00 0xbf20) 0xbf04 0x3010) 0x3014 0)
       0xbf20 0xbf40) 0xbf24 0x2810) 0x2814 0) 0xbf28 5) 0xbf2c 0x6000)
       0xbf40 0xbf60) 0xbf44 0x2010) 0x2014 0)
       0xbf60 0xbf80) 0xbf64 0x1010) 0x1014 0"

text \<open>
  A table whose functions \<^verbatim>\<open>b\<close> and \<^verbatim>\<open>c\<close> take two arguments: \<^verbatim>\<open>b(int x, int y)\<close>
  and \<^verbatim>\<open>c(char *s, int y)\<close>.
\<close>

definition table_args :: "memory \<Rightarrow> machine" where
  "table_args m =
     \<lparr>functions = [\<lparr>f_addr = 0x1000, f_name = ''_start'', f_args = []\<rparr>,
                    \<lparr>f_addr = 0x3000, f_name = ''b'', f_args =
                       [\<lparr>a_type = TYPE_INT, a_offset = 8, a_name = ''x''\<rparr>,
                        \<lparr>a_type = TYPE_INT, a_offset = 12, a_name = ''y''\<rparr>]\<rparr>,
                    \<lparr>f_addr = 0x3800, f_name = ''c'', f_args =
                       [\<lparr>a_type = TYPE_STRING, a_offset = 8, a_name = ''s''\<rparr>,
                        \<lparr>a_type = TYPE_INT, a_offset = 12, a_name = ''y''\<rparr>]\<rparr>,
                    \<lparr>f_addr = 0x4000, f_name = ''_fini'', f_args = []\<rparr>],
      FUNCTS_MAX_NUM = 8, ARGS_MAX_NUM = 6, MAX_FUNCTION_SIZE_BYTES = 0x100000,
      mem = m, sigaction_result = 0, sigprocmask_result = 0,
      fmt_float = (\<lambda>w. []), fmt_double = (\<lambda>w. [])\<rparr>"

text \<open>
  Frames at \<open>0xbf00\<close> whose caller's frame at \<open>0xbff4\<close> ends the mapped stack: the
  first argument, at \<open>0xbffc\<close>, can be read and the second, at \<open>0xc000\<close>, cannot.
  In \<open>frame_int_top\<close> the return address lies in \<^verbatim>\<open>b\<close> and the first argument is 7; in
  \<open>frame_str_top\<close> the return address lies in \<^verbatim>\<open>c\<close> and the first argument points to
  the string \<^verbatim>\<open>hi\<close>.
\<close>

definition frame_int_top :: memory where
  "frame_int_top =
     store32 (store32 (store32 (store32 Map.empty 0xbf00 0xbff4) 0xbf04 0x3010) 0x3014 0)
       0xbffc 7"

definition frame_str_top :: memory where
  "frame_str_top =
     store32 (store32 (store32 (store32 mem_hi 0xbf00 0xbff4) 0xbf04 0x3810) 0x3814 0)
       0xbffc 0x6000"

text \<open>
  A frame whose return address \<open>0x2010\<close> lies in \<^verbatim>\<open>main\<close> of \<open>table4\<close> and is followed
  by no readable word.
\<close>

definition frame_no_code :: memory where
  "frame_no_code = store32 (store32 Map.empty 0xbf00 0xbf20) 0xbf04 0x2010"

text \<open>The outermost frame: its saved frame pointer is null.\<close>

definition frame_outermost :: memory where
  "frame_outermost = store32 (store32 Map.empty 0xbf00 0) 0xbf04 0x1010"

text \<open>
  States of the file \<^verbatim>\<open>a.out\<close>: present and not open for writing to the process, in a
  directory where entries can be removed (the case of a running executable of that
  name); and absent, with different descriptors free and different permissions given to
  a created file.
\<close>

definition os_locked :: os where
  "os_locked = \<lparr>probe_file = Present False, dir_writable = True, next_fd = 3,
                created_writable = True\<rparr>"

definition os_clean :: os where
  "os_clean = \<lparr>probe_file = Absent, dir_writable = True, next_fd = 3,
               created_writable = False\<rparr>"

definition os_other :: os where
  "os_other = \<lparr>probe_file = Absent, dir_writable = True, next_fd = 4,
               created_writable = True\<rparr>"

section \<open>Properties of the symbol-table lookup\<close>

lemma live_at:
  assumes "i < length (live M)"
  shows "int i < FUNCTS_MAX_NUM M" and "functions_at M (int i) = Inr (live M ! i)"
    and "f_name (live M ! i) \<noteq> []"
proof -
  let ?xs = "take (nat (FUNCTS_MAX_NUM M)) (functions M)"
  have le: "length (live M) \<le> length ?xs"
    unfolding live_def by (rule length_takeWhile_le)
  with assms have i: "i < nat (FUNCTS_MAX_NUM M)" "i < length (functions M)"
    by auto
  show "int i < FUNCTS_MAX_NUM M" using i by linarith
  have "live M ! i = ?xs ! i"
    using assms unfolding live_def by (rule takeWhile_nth)
  also have "\<dots> = functions M ! i" using i by simp
  finally show "functions_at M (int i) = Inr (live M ! i)"
    using i by (simp add: functions_at_def)
  have "live M ! i \<in> set (live M)" using assms by simp
  then show "f_name (live M ! i) \<noteq> []"
    unfolding live_def by (auto dest: set_takeWhileD)
qed

lemma live_end:
  assumes "int (length (live M)) < FUNCTS_MAX_NUM M"
  shows "\<exists>f. functions_at M (int (length (live M))) = Inr f \<and> f_name f = []"
proof (cases "length (live M) < length (functions M)")
  case True
  let ?xs = "take (nat (FUNCTS_MAX_NUM M)) (functions M)"
  have lt: "length (live M) < length ?xs" using True assms by simp
  then have "\<not> f_name (?xs ! length (live M)) \<noteq> []"
    unfolding live_def by (rule nth_length_takeWhile)
  moreover have "?xs ! length (live M) = functions M ! length (live M)"
    using lt by simp
  ultimately show ?thesis using True assms by (simp add: functions_at_def)
next
  case False
  then show ?thesis using assms by (simp add: functions_at_def zero_functsym_def)
qed

lemma scan_sigjmp_from:
  "i \<le> length (live M) \<Longrightarrow>
   scan_sigjmp M ra (int i) =
     Inr (int (i + length (takeWhile (\<lambda>f. \<not> ra <s f_addr f) (drop i (live M)))))"
proof (induction "length (live M) - i" arbitrary: i)
  case 0
  then have i: "i = length (live M)" by simp
  show ?case
  proof (cases "int i < FUNCTS_MAX_NUM M")
    case True
    with live_end[of M] i obtain f where "functions_at M (int i) = Inr f" "f_name f = []"
      by auto
    then show ?thesis using i True by (subst scan_sigjmp.simps) simp
  next
    case False
    then show ?thesis using i by (subst scan_sigjmp.simps) simp
  qed
next
  case (Suc n)
  then have lt: "i < length (live M)" by simp
  note at = live_at[OF lt]
  have dr: "drop i (live M) = live M ! i # drop (Suc i) (live M)"
    using lt by (simp add: Cons_nth_drop_Suc)
  show ?case
  proof (cases "ra <s f_addr (live M ! i)")
    case True
    then show ?thesis using at dr by (subst scan_sigjmp.simps) simp
  next
    case False
    have "scan_sigjmp M ra (int i) = scan_sigjmp M ra (int (Suc i))"
      using at False by (subst scan_sigjmp.simps) (simp add: add.commute)
    also have "\<dots> = Inr (int (Suc i + length (takeWhile (\<lambda>f. \<not> ra <s f_addr f) (drop (Suc i) (live M)))))"
      using Suc.hyps(1)[of "Suc i"] Suc.hyps(2) lt by simp
    finally show ?thesis using dr False by simp
  qed
qed

lemma stop_le: "stop M ra \<le> length (live M)"
  unfolding stop_def by (rule length_takeWhile_le)

lemma scan_sigjmp_0: "scan_sigjmp M ra 0 = Inr (int (stop M ra))"
  using scan_sigjmp_from[of 0 M ra] by (simp add: stop_def)

lemma stop_before:
  assumes "j < stop M ra"
  shows "sint (f_addr (live M ! j)) \<le> sint ra"
proof -
  let ?P = "\<lambda>f. \<not> ra <s f_addr f"
  have "takeWhile ?P (live M) ! j \<in> set (takeWhile ?P (live M))"
    using assms unfolding stop_def by simp
  then have "?P (takeWhile ?P (live M) ! j)" by (auto dest: set_takeWhileD)
  moreover have "takeWhile ?P (live M) ! j = live M ! j"
    using assms unfolding stop_def by (rule takeWhile_nth)
  ultimately show ?thesis by (simp add: word_sless_alt)
qed

lemma stop_at:
  assumes "stop M ra < length (live M)"
  shows "sint ra < sint (f_addr (live M ! stop M ra))"
proof -
  have "\<not> \<not> ra <s f_addr (live M ! stop M ra)"
    using assms unfolding stop_def by (rule nth_length_takeWhile)
  then show ?thesis by (simp add: word_sless_alt)
qed

lemma sint_diff:
  fixes a ra :: "32 word"
  assumes "0 \<le> sint a" "sint a \<le> sint ra"
  shows "sint (ra - a) = sint ra - sint a"
proof -
  have "sint ra < 2 ^ 31" using sint_lt[of ra] by simp
  then have "- (2 ^ 31) \<le> sint ra - sint a" "sint ra - sint a < 2 ^ 31"
    using assms by simp_all
  then have "signed_take_bit 31 (sint ra - sint a) = sint ra - sint a"
    by (simp add: signed_take_bit_int_eq_self)
  then show ?thesis by (simp add: sint_word_ariths)
qed

lemma get_index_sigjmp_stop:
  "get_index_sigjmp M ra =
     (if stop M ra = 0 then Inl (OutOfBounds (- 1))
      else if sint (ra - f_addr (live M ! (stop M ra - 1))) < MAX_FUNCTION_SIZE_BYTES M
      then Inr (int (stop M ra) - 1) else Inr (- 1))"
proof (cases "stop M ra = 0")
  case True
  have "functions_at M (- 1) = Inl (OutOfBounds (- 1))"
    by (simp add: functions_at_def)
  then show ?thesis using True
    by (simp add: get_index_sigjmp_def scan_sigjmp_0)
next
  case False
  then have "stop M ra - 1 < length (live M)" using stop_le[of M ra] by simp
  from live_at(2)[OF this] False
  have "functions_at M (int (stop M ra) - 1) = Inr (live M ! (stop M ra - 1))"
    by (simp add: of_nat_diff)
  then show ?thesis using False
    by (simp add: get_index_sigjmp_def scan_sigjmp_0)
qed

lemma scan_probe_from:
  "i \<le> length (live M) \<Longrightarrow>
   scan_probe M ra (int i) =
     (let k = i + length (takeWhile (\<lambda>f. \<not> ra <s f_addr f) (drop i (live M)))
      in Inr (int k, k < length (live M)))"
proof (induction "length (live M) - i" arbitrary: i)
  case 0
  then have i: "i = length (live M)" by simp
  show ?case
  proof (cases "int i < FUNCTS_MAX_NUM M")
    case True
    with live_end[of M] i obtain f where "functions_at M (int i) = Inr f" "f_name f = []"
      by auto
    then show ?thesis using i True by (subst scan_probe.simps) simp
  next
    case False
    then show ?thesis using i by (subst scan_probe.simps) simp
  qed
next
  case (Suc n)
  then have lt: "i < length (live M)" by simp
  note at = live_at[OF lt]
  have dr: "drop i (live M) = live M ! i # drop (Suc i) (live M)"
    using lt by (simp add: Cons_nth_drop_Suc)
  show ?case
  proof (cases "ra <s f_addr (live M ! i)")
    case True
    then show ?thesis using at dr lt by (subst scan_probe.simps) simp
  next
    case False
    have "scan_probe M ra (int i) = scan_probe M ra (int (Suc i))"
      using at False by (subst scan_probe.simps) (simp add: add.commute)
    also have "\<dots> = (let k = Suc i + length (takeWhile (\<lambda>f. \<not> ra <s f_addr f) (drop (Suc i) (live M)))
      in Inr (int k, k < length (live M)))"
      using Suc.hyps(1)[of "Suc i"] Suc.hyps(2) lt by simp
    finally show ?thesis using dr False by (simp add: Let_def)
  qed
qed

lemma get_index_probe_stop:
  "get_index_probe M ra =
     Inr (if stop M ra < length (live M) then int (stop M ra) - 1 else - 1)"
  using scan_probe_from[of 0 M ra]
  by (simp add: get_index_probe_def stop_def Let_def)

lemma takeWhile_upto_nth:
  fixes g :: "'a \<Rightarrow> int"
  assumes "sorted_wrt (<) (map g xs)" "i < length xs"
  shows "length (takeWhile (\<lambda>x. g x \<le> g (xs ! i)) xs) = Suc i"
proof -
  let ?P = "\<lambda>x. g x \<le> g (xs ! i)"
  have nth_less: "g (xs ! j) < g (xs ! k)" if "j < k" "k < length xs" for j k
    using sorted_wrt_nth_less[OF assms(1), of j k] that by simp
  have pre: "?P x" if "x \<in> set (take (Suc i) xs)" for x
  proof -
    from that obtain j where j: "j < Suc i" "x = xs ! j"
      using assms(2) by (auto simp: in_set_conv_nth)
    show ?thesis
    proof (cases "j = i")
      case True then show ?thesis using j by simp
    next
      case False
      then have "j < i" using j by simp
      then show ?thesis using nth_less[of j i] assms(2) j by simp
    qed
  qed
  have "takeWhile ?P (take (Suc i) xs @ drop (Suc i) xs)
      = take (Suc i) xs @ takeWhile ?P (drop (Suc i) xs)"
    by (rule takeWhile_append2) (rule pre)
  moreover have "takeWhile ?P (drop (Suc i) xs) = []"
  proof (cases "Suc i < length xs")
    case True
    then have "drop (Suc i) xs = xs ! Suc i # drop (Suc (Suc i)) xs"
      by (simp add: Cons_nth_drop_Suc)
    moreover have "\<not> ?P (xs ! Suc i)" using nth_less[of i "Suc i"] True by simp
    ultimately show ?thesis by simp
  next
    case False
    then show ?thesis by simp
  qed
  ultimately have "takeWhile ?P xs = take (Suc i) xs" by simp
  then show ?thesis using assms(2) by simp
qed

lemma stop_at_start:
  assumes "table_ok M" "i < length (live M)"
  shows "stop M (f_addr (live M ! i)) = Suc i"
proof -
  have eq: "(\<lambda>f. \<not> f_addr (live M ! i) <s f_addr f)
      = (\<lambda>f. sint (f_addr f) \<le> sint (f_addr (live M ! i)))"
    by (auto simp: word_sless_alt)
  have "length (takeWhile (\<lambda>f. sint (f_addr f) \<le> sint (f_addr (live M ! i))) (live M)) = Suc i"
    using takeWhile_upto_nth[of "\<lambda>f. sint (f_addr f)" "live M" i] assms
    by (simp add: table_ok_def)
  then show ?thesis unfolding stop_def eq .
qed

lemma sigjmp_at_start:
  assumes "table_ok M" "i < length (live M)"
  shows "get_index_sigjmp M (f_addr (live M ! i)) = Inr (int i)"
  using assms stop_at_start[OF assms]
  by (simp add: get_index_sigjmp_stop table_ok_def)

lemma sigjmp_found:
  assumes ok: "table_ok M" and r: "get_index_sigjmp M a = Inr r" "0 \<le> r"
  shows "nat r < length (live M) \<and> covers M (live M ! nat r) a \<and>
         (\<forall>j < length (live M). sint (f_addr (live M ! j)) \<le> sint a \<longrightarrow> j \<le> nat r)"
proof -
  let ?k = "stop M a"
  from r have k: "?k \<noteq> 0" and r_eq: "r = int ?k - 1"
    and lt: "sint (a - f_addr (live M ! (?k - 1))) < MAX_FUNCTION_SIZE_BYTES M"
    by (auto simp: get_index_sigjmp_stop split: if_splits)
  have n: "nat r = ?k - 1" using r_eq k by simp
  have len: "?k - 1 < length (live M)" using k stop_le[of M a] by simp
  have le: "sint (f_addr (live M ! (?k - 1))) \<le> sint a"
    using stop_before[of "?k - 1" M a] k by simp
  have "live M ! (?k - 1) \<in> set (live M)" using len by simp
  then have nn: "0 \<le> sint (f_addr (live M ! (?k - 1)))"
    using ok by (simp add: table_ok_def)
  have cov: "covers M (live M ! (?k - 1)) a"
    using lt le sint_diff[OF nn le] by (simp add: covers_def)
  have last: "j \<le> ?k - 1" if j: "j < length (live M)" "sint (f_addr (live M ! j)) \<le> sint a" for j
  proof (rule ccontr)
    assume "\<not> j \<le> ?k - 1"
    then have kj: "?k \<le> j" using k by simp
    then have klen: "?k < length (live M)" using j by simp
    have "sint a < sint (f_addr (live M ! ?k))" by (rule stop_at[OF klen])
    moreover have "sint (f_addr (live M ! ?k)) \<le> sint (f_addr (live M ! j))"
    proof (cases "?k = j")
      case True then show ?thesis by simp
    next
      case False
      then have "?k < j" using kj by simp
      from sorted_wrt_nth_less[OF _ this, of "(<)" "map (\<lambda>f. sint (f_addr f)) (live M)"]
      show ?thesis using ok j klen by (simp add: table_ok_def)
    qed
    ultimately show False using j by simp
  qed
  show ?thesis using n len cov last by simp
qed

lemma sigjmp_uncovered:
  assumes ok: "table_ok M" and ne: "live M \<noteq> []"
    and first: "sint (f_addr (live M ! 0)) \<le> sint a"
    and unc: "\<forall>f \<in> set (live M). \<not> covers M f a"
  shows "get_index_sigjmp M a = Inr (- 1)"
proof -
  let ?k = "stop M a"
  have "\<not> a <s f_addr (live M ! 0)" using first by (simp add: word_sless_alt)
  then have k: "?k \<noteq> 0"
    using ne by (cases "live M") (simp_all add: stop_def)
  have len: "?k - 1 < length (live M)" using k stop_le[of M a] by simp
  have le: "sint (f_addr (live M ! (?k - 1))) \<le> sint a"
    using stop_before[of "?k - 1" M a] k by simp
  have mem: "live M ! (?k - 1) \<in> set (live M)" using len by simp
  then have nn: "0 \<le> sint (f_addr (live M ! (?k - 1)))"
    using ok by (simp add: table_ok_def)
  have "\<not> covers M (live M ! (?k - 1)) a" using unc mem by blast
  then have "\<not> sint (a - f_addr (live M ! (?k - 1))) < MAX_FUNCTION_SIZE_BYTES M"
    using le sint_diff[OF nn le] by (simp add: covers_def)
  then show ?thesis using k by (simp add: get_index_sigjmp_stop)
qed

lemma probe_at_start:
  assumes "table_ok M" "Suc i < length (live M)"
  shows "get_index_probe M (f_addr (live M ! i)) = Inr (int i)"
proof -
  have "stop M (f_addr (live M ! i)) = Suc i"
    using stop_at_start[OF assms(1), of i] assms(2) by simp
  then show ?thesis using assms(2) by (simp add: get_index_probe_stop)
qed

lemma probe_found:
  assumes r: "get_index_probe M a = Inr r" "0 \<le> r"
  shows "Suc (nat r) < length (live M) \<and> sint (f_addr (live M ! nat r)) \<le> sint a \<and>
         sint a < sint (f_addr (live M ! Suc (nat r)))"
proof -
  let ?k = "stop M a"
  from r have klen: "?k < length (live M)" and r_eq: "r = int ?k - 1"
    by (auto simp: get_index_probe_stop split: if_splits)
  from r r_eq have k: "?k \<noteq> 0" by auto
  have n: "Suc (nat r) = ?k" using r_eq k by simp
  have "sint (f_addr (live M ! (?k - 1))) \<le> sint a"
    using stop_before[of "?k - 1" M a] k by simp
  moreover have "nat r = ?k - 1" using n by simp
  ultimately show ?thesis using stop_at[OF klen] klen n by simp
qed

lemma probe_last:
  assumes ok: "table_ok M" and ne: "live M \<noteq> []"
    and lst: "sint (f_addr (last (live M))) \<le> sint a"
  shows "get_index_probe M a = Inr (- 1)"
proof -
  have "\<not> stop M a < length (live M)"
  proof
    assume klen: "stop M a < length (live M)"
    have 1: "sint a < sint (f_addr (live M ! stop M a))" by (rule stop_at[OF klen])
    have "sint (f_addr (live M ! stop M a)) \<le> sint (f_addr (last (live M)))"
    proof (cases "stop M a = length (live M) - 1")
      case True then show ?thesis using ne by (simp add: last_conv_nth)
    next
      case False
      then have "stop M a < length (live M) - 1" using klen by simp
      from sorted_wrt_nth_less[OF _ this, of "(<)" "map (\<lambda>f. sint (f_addr f)) (live M)"]
      show ?thesis using ok ne klen by (simp add: table_ok_def last_conv_nth)
    qed
    with 1 lst show False by simp
  qed
  then show ?thesis by (simp add: get_index_probe_stop)
qed

text \<open>
  Claim C1, as amended.  For a table that satisfies \<open>table_ok\<close>, the signal revision of
  \<^verbatim>\<open>get_index\<close> returns \<open>-1\<close> for every address at or above the first start that no
  descriptor covers; returns \<open>i\<close> for the start of descriptor \<open>i\<close>; and returns an index
  \<open>r \<ge> 0\<close> only for an address that descriptor \<open>r\<close> covers (less than
  \<^verbatim>\<open>MAX_FUNCTION_SIZE_BYTES\<close> past its start), \<open>r\<close> being the last descriptor that starts
  at or below the address.  The write-probe revision has no size bound: it returns \<open>i\<close>
  for the start of descriptor \<open>i\<close> when a later descriptor exists, returns an index
  \<open>r \<ge> 0\<close> only for an address between the starts of descriptors \<open>r\<close> and \<open>r + 1\<close>, and
  returns \<open>-1\<close> for every address at or above the start of the last descriptor.
\<close>

theorem get_index_contract:
  assumes ok: "table_ok M"
  shows
    "(\<forall>a. live M \<noteq> [] \<and> sint (f_addr (live M ! 0)) \<le> sint a \<and>
          (\<forall>f \<in> set (live M). \<not> covers M f a) \<longrightarrow>
          get_index_sigjmp M a = Inr (- 1)) \<and>
     (\<forall>i < length (live M). get_index_sigjmp M (f_addr (live M ! i)) = Inr (int i)) \<and>
     (\<forall>a r. get_index_sigjmp M a = Inr r \<and> 0 \<le> r \<longrightarrow>
          nat r < length (live M) \<and> covers M (live M ! nat r) a \<and>
          (\<forall>j < length (live M). sint (f_addr (live M ! j)) \<le> sint a \<longrightarrow> j \<le> nat r)) \<and>
     (\<forall>i. Suc i < length (live M) \<longrightarrow>
          get_index_probe M (f_addr (live M ! i)) = Inr (int i)) \<and>
     (\<forall>a r. get_index_probe M a = Inr r \<and> 0 \<le> r \<longrightarrow>
          Suc (nat r) < length (live M) \<and> sint (f_addr (live M ! nat r)) \<le> sint a \<and>
          sint a < sint (f_addr (live M ! Suc (nat r)))) \<and>
     (\<forall>a. live M \<noteq> [] \<and> sint (f_addr (last (live M))) \<le> sint a \<longrightarrow>
          get_index_probe M a = Inr (- 1))"
proof (intro conjI allI impI)
  fix a :: "32 word"
  assume "live M \<noteq> [] \<and> sint (f_addr (live M ! 0)) \<le> sint a \<and>
          (\<forall>f \<in> set (live M). \<not> covers M f a)"
  then show "get_index_sigjmp M a = Inr (- 1)"
    using sigjmp_uncovered[OF ok] by blast
next
  fix i assume "i < length (live M)"
  then show "get_index_sigjmp M (f_addr (live M ! i)) = Inr (int i)"
    by (rule sigjmp_at_start[OF ok])
next
  fix a :: "32 word" and r :: int assume h: "get_index_sigjmp M a = Inr r \<and> 0 \<le> r"
  note f = sigjmp_found[OF ok conjunct1[OF h] conjunct2[OF h]]
  show "nat r < length (live M)" using f by blast
  show "covers M (live M ! nat r) a" using f by blast
  fix j assume "j < length (live M)" "sint (f_addr (live M ! j)) \<le> sint a"
  then show "j \<le> nat r" using f by blast
next
  fix i assume "Suc i < length (live M)"
  then show "get_index_probe M (f_addr (live M ! i)) = Inr (int i)"
    by (rule probe_at_start[OF ok])
next
  fix a :: "32 word" and r :: int assume h: "get_index_probe M a = Inr r \<and> 0 \<le> r"
  note f = probe_found[OF conjunct1[OF h] conjunct2[OF h]]
  show "Suc (nat r) < length (live M)" using f by blast
  show "sint (f_addr (live M ! nat r)) \<le> sint a" using f by blast
  show "sint a < sint (f_addr (live M ! Suc (nat r)))" using f by blast
next
  fix a :: "32 word" assume "live M \<noteq> [] \<and> sint (f_addr (last (live M))) \<le> sint a"
  then show "get_index_probe M a = Inr (- 1)"
    using probe_last[OF ok] by blast
qed

text \<open>
  The contract at a table of two descriptors, \<open>f\<close> at \<open>0x1000\<close> and \<open>g\<close> at \<open>0x900000\<close>,
  with the size bound \<open>0x100000\<close>.
\<close>

theorem get_index_contract_witness:
  "table_ok (table2 Map.empty) \<and>
   get_index_sigjmp (table2 Map.empty) 0x201000 = Inr (- 1) \<and>
   get_index_sigjmp (table2 Map.empty) 0x900000 = Inr 1 \<and>
   get_index_probe (table2 Map.empty) 0x1000 = Inr 0 \<and>
   get_index_probe (table2 Map.empty) 0x900000 = Inr (- 1)"
proof -
  let ?M = "table2 Map.empty"
  have lv: "live ?M = [\<lparr>f_addr = 0x1000, f_name = ''f'', f_args = []\<rparr>,
                      \<lparr>f_addr = 0x900000, f_name = ''g'', f_args = []\<rparr>]"
    by (simp add: live_def table2_def)
  have ok: "table_ok ?M"
    by (simp add: table_ok_def lv) (simp add: table2_def)
  note T = get_index_contract[OF ok]
  note T1 = T[THEN conjunct1, rule_format]
  note T2 = T[THEN conjunct2, THEN conjunct1, rule_format]
  note T4 = T[THEN conjunct2, THEN conjunct2, THEN conjunct2, THEN conjunct1, rule_format]
  note T6 = T[THEN conjunct2, THEN conjunct2, THEN conjunct2, THEN conjunct2, THEN conjunct2,
    rule_format]
  have unc: "live ?M \<noteq> [] \<and> sint (f_addr (live ?M ! 0)) \<le> sint (0x201000 :: 32 word) \<and>
      (\<forall>f \<in> set (live ?M). \<not> covers ?M f 0x201000)"
    by (simp add: lv covers_def) (simp add: table2_def)
  have 1: "get_index_sigjmp ?M 0x201000 = Inr (- 1)"
    by (rule T1[OF unc])
  have "get_index_sigjmp ?M (f_addr (live ?M ! 1)) = Inr (int 1)"
    by (rule T2) (simp add: lv)
  then have 2: "get_index_sigjmp ?M 0x900000 = Inr 1" by (simp add: lv)
  have "get_index_probe ?M (f_addr (live ?M ! 0)) = Inr (int 0)"
    by (rule T4) (simp add: lv)
  then have 3: "get_index_probe ?M 0x1000 = Inr 0" by (simp add: lv)
  have "live ?M \<noteq> [] \<and> sint (f_addr (last (live ?M))) \<le> sint (0x900000 :: 32 word)"
    by (simp add: lv)
  then have 4: "get_index_probe ?M 0x900000 = Inr (- 1)"
    by (rule T6)
  show ?thesis using ok 1 2 3 4 by simp
qed

text \<open>
  Claim C1 as stated fails in the write-probe revision: the start of the last
  descriptor is resolved to \<open>-1\<close>, and an address two megabytes past the start of \<open>f\<close>
  is resolved to \<open>f\<close>, beyond the size bound.
\<close>

theorem get_index_contract_counterexample:
  "get_index_probe (table2 Map.empty) 0x900000 = Inr (- 1) \<and>
   functions_at (table2 Map.empty) 1 = Inr \<lparr>f_addr = 0x900000, f_name = ''g'', f_args = []\<rparr> \<and>
   get_index_probe (table2 Map.empty) 0x201000 = Inr 0 \<and>
   functions_at (table2 Map.empty) 0 = Inr \<lparr>f_addr = 0x1000, f_name = ''f'', f_args = []\<rparr> \<and>
   \<not> sint (0x201000 - 0x1000 :: 32 word) < MAX_FUNCTION_SIZE_BYTES (table2 Map.empty)"
  by code_simp

section \<open>Reads of the table outside its bounds\<close>

text \<open>
  Claim C9 (a defect of the code).  In the signal revision, when the scan of
  \<^verbatim>\<open>get_index\<close> stops at index 0 (the table has no descriptor, or the address is below
  the first start), the guard \<^verbatim>\<open>index >= 0\<close> holds and \<^verbatim>\<open>functions[index - 1]\<close> is
  read at index \<open>-1\<close>.
\<close>

theorem get_index_sigjmp_reads_before_table:
  assumes "live M = [] \<or> a <s f_addr (live M ! 0)"
  shows "get_index_sigjmp M a = Inl (OutOfBounds (- 1))"
proof -
  have "stop M a = 0"
    using assms by (cases "live M") (auto simp: stop_def)
  then show ?thesis by (simp add: get_index_sigjmp_stop)
qed

text \<open>The address \<open>0x500\<close>, below the first start \<open>0x1000\<close>.\<close>

theorem get_index_sigjmp_reads_before_table_witness:
  "(0x500 :: 32 word) <s f_addr (live (table2 Map.empty) ! 0) \<and>
   get_index_sigjmp (table2 Map.empty) 0x500 = Inl (OutOfBounds (- 1))"
proof -
  have lt: "(0x500 :: 32 word) <s f_addr (live (table2 Map.empty) ! 0)"
    by (simp add: live_def table2_def)
  then have "live (table2 Map.empty) = [] \<or> (0x500 :: 32 word) <s f_addr (live (table2 Map.empty) ! 0)"
    by (rule disjI2)
  from get_index_sigjmp_reads_before_table[OF this] lt show ?thesis by (rule conjI[rotated])
qed

text \<open>
  Claim C10 (a defect of the code).  In the write-probe revision \<^verbatim>\<open>traceback\<close> passes
  the result of the second \<^verbatim>\<open>get_index\<close> to \<^verbatim>\<open>is_main\<close> unchecked; when the exit
  address does not resolve, \<^verbatim>\<open>is_main\<close> reads \<^verbatim>\<open>functions[-1]\<close>.
\<close>

theorem is_main_reads_out_of_bounds:
  assumes "read32 (mem M) ebp = Some old_ebp"
    and "read32 (mem M) (ebp + 4) = Some return_address"
    and "ebp < old_ebp"
    and "get_index_probe M return_address = Inr index"
    and "0 \<le> index"
    and "functions_at M index = Inr curr_function"
    and "read32 (mem M) (return_address + 4) = Some operand"
    and "get_index_probe M (return_address + operand + 8) = Inr (- 1)"
  shows "is_main M index (- 1) = Inl (OutOfBounds (- 1)) \<and>
         step_probe M fd ebp out = Crashed (OutOfBounds (- 1))"
proof -
  have m: "is_main M index (- 1) = Inl (OutOfBounds (- 1))"
    by (simp add: is_main_def functions_at_def)
  have "\<not> old_ebp \<le> ebp" using assms(3) by simp
  then have "step_probe M fd ebp out = Crashed (OutOfBounds (- 1))"
    using assms m by (simp add: step_probe_def)
  with m show ?thesis by simp
qed

text \<open>
  The frame \<open>frame_in_start\<close>: the return address resolves to \<^verbatim>\<open>_start\<close>, the exit
  address \<open>0x3000\<close> is the start of the last descriptor, which the write-probe revision
  does not resolve.
\<close>

theorem is_main_reads_out_of_bounds_witness:
  "is_main (table3 frame_in_start) 0 (- 1) = Inl (OutOfBounds (- 1)) \<and>
   step_probe (table3 frame_in_start) 3 0xbf00 [] = Crashed (OutOfBounds (- 1))"
proof -
  let ?M = "table3 frame_in_start"
  have m: "mem ?M = frame_in_start" by (simp add: table3_def)
  have 1: "read32 (mem ?M) 0xbf00 = Some 0xbf20" unfolding m by code_simp
  have 2: "read32 (mem ?M) (0xbf00 + 4) = Some 0x1010" unfolding m by code_simp
  have 3: "(0xbf00 :: 32 word) < 0xbf20" by simp
  have 4: "get_index_probe ?M 0x1010 = Inr 0" by code_simp
  have 5: "(0::int) \<le> 0" by simp
  have 6: "functions_at ?M 0 = Inr \<lparr>f_addr = 0x1000, f_name = ''_start'', f_args = []\<rparr>"
    by code_simp
  have 7: "read32 (mem ?M) (0x1010 + 4) = Some 0x1fe8" unfolding m by code_simp
  have 8: "get_index_probe ?M (0x1010 + 0x1fe8 + 8) = Inr (- 1)" by code_simp
  show ?thesis by (rule is_main_reads_out_of_bounds[OF 1 2 3 4 5 6 7 8])
qed

section \<open>Properties of the frame walker\<close>

text \<open>
  Claim C2, as amended.  In both revisions, at a frame whose two words can be read and
  whose saved frame pointer is not null and not above the current frame pointer
  (\<open>old_ebp \<le> ebp\<close>), the iteration writes the line \<^verbatim>\<open>FATAL: Stack Wrong!\<close> once and leaves
  the loop: the walk ends in \<open>Done\<close> with that line appended, and no further frame is
  read.
\<close>

theorem frame_corruption_halts:
  assumes "read32 (mem M) ebp = Some old_ebp"
    and "read32 (mem M) (ebp + 4) = Some return_address"
    and "old_ebp \<noteq> 0" and "old_ebp \<le> ebp"
  shows "step_probe M fd ebp out = Done (out @ FATAL) \<and>
         loop_probe M fd (Walking ebp out) = Done (out @ FATAL) \<and>
         step_sigjmp M ebp out = Done (out @ FATAL) \<and>
         loop_sigjmp M (Walking ebp out) = Done (out @ FATAL)"
proof -
  have p: "step_probe M fd ebp out = Done (out @ FATAL)"
    using assms by (simp add: step_probe_def)
  have "ebp \<noteq> 0" using assms(3,4) by auto
  then have s: "step_sigjmp M ebp out = Done (out @ FATAL)"
    using assms by (simp add: step_sigjmp_def)
  show ?thesis using p s by simp
qed

text \<open>The frame \<open>frame_corrupt\<close>, whose saved frame pointer is below the frame.\<close>

theorem frame_corruption_halts_witness:
  "read32 (mem (table3 frame_corrupt)) 0xbf00 = Some 0xbe00 \<and>
   (0xbe00 :: 32 word) \<noteq> 0 \<and> (0xbe00 :: 32 word) \<le> 0xbf00 \<and>
   step_probe (table3 frame_corrupt) 3 0xbf00 [] = Done FATAL \<and>
   loop_probe (table3 frame_corrupt) 3 (Walking 0xbf00 []) = Done FATAL \<and>
   step_sigjmp (table3 frame_corrupt) 0xbf00 [] = Done FATAL \<and>
   loop_sigjmp (table3 frame_corrupt) (Walking 0xbf00 []) = Done FATAL"
proof -
  let ?M = "table3 frame_corrupt"
  have m: "mem ?M = frame_corrupt" by (simp add: table3_def)
  have 1: "read32 (mem ?M) 0xbf00 = Some 0xbe00" unfolding m by code_simp
  have 2: "read32 (mem ?M) (0xbf00 + 4) = Some 0x1010" unfolding m by code_simp
  have 3: "(0xbe00 :: 32 word) \<noteq> 0" by simp
  have 4: "(0xbe00 :: 32 word) \<le> 0xbf00" by simp
  note T = frame_corruption_halts[OF 1 2 3 4, of 3 "[]", simplified append_Nil]
  show ?thesis using 1 3 4 T by (intro conjI) blast+
qed

text \<open>
  Claim C2 as stated fails: a saved frame pointer that is not null and greater than the
  current frame pointer is the regular case, and both revisions go on to the caller's
  frame with no diagnostic.
\<close>

theorem frame_corruption_halts_counterexample:
  "read32 (mem (table2 frame_unresolved)) 0xbf00 = Some 0xbf20 \<and>
   (0xbf20 :: 32 word) \<noteq> 0 \<and> (0xbf20 :: 32 word) \<ge> 0xbf00 \<and>
   step_probe (table2 frame_unresolved) 3 0xbf00 [] =
     Walking 0xbf20 (''Function 0xb00000(...), in'' @ NEWLINE) \<and>
   step_sigjmp (table2 frame_unresolved) 0xbf00 [] =
     Walking 0xbf20 (''Function 0xb00000(...), in'' @ NEWLINE)"
  by code_simp

text \<open>
  Claim C6, as amended.  One iteration of the loop, by revision.

  Signal revision: the iteration leaves the loop with nothing written when the frame
  pointer is null, when one of the two words of the frame cannot be read and, at a
  resolved frame, when the word after the return address cannot be read.  The names
  \<^verbatim>\<open>_start\<close> and \<^verbatim>\<open>exit\<close> play no part: at a resolved frame whose second lookup
  stays inside the table, the iteration writes the frame line and goes on to the
  caller's frame when every argument is printed, and it leaves the loop after the
  unfinished line, \<^verbatim>\<open>Function\<close>, the name, the parenthesis and the arguments printed
  so far, when the read of an argument faults back to the head of the loop.

  Write-probe revision: at a resolved frame whose exit index is inside the table, the
  iteration leaves the loop with nothing written when the function at the exit index is
  \<^verbatim>\<open>exit\<close> or the resolved function is \<^verbatim>\<open>_start\<close>; otherwise it prints the arguments
  and goes on to the caller's frame with the frame line written, or an invalid access
  made while printing ends the process.  The frame pointer is not tested for null: a
  null saved frame pointer leaves the loop with the line \<^verbatim>\<open>FATAL: Stack Wrong!\<close>.
\<close>

theorem walker_stop_conditions:
  "step_sigjmp M 0 out = Done out \<and>
   (ebp \<noteq> 0 \<and> (read32 (mem M) ebp = None \<or> read32 (mem M) (ebp + 4) = None) \<longrightarrow>
      step_sigjmp M ebp out = Done out) \<and>
   (resolved_sigjmp M ebp old_ebp return_address index f \<and>
    read32 (mem M) (return_address + 4) = None \<longrightarrow>
      step_sigjmp M ebp out = Done out) \<and>
   (resolved_sigjmp M ebp old_ebp return_address index f \<and>
    read32 (mem M) (return_address + 4) = Some operand \<and>
    get_index_sigjmp M (return_address + operand + 8) = Inr exit_index \<and>
    print_arguments_sigjmp M f old_ebp = (s, Val ()) \<longrightarrow>
      step_sigjmp M ebp out = Walking old_ebp (out @ frame_line f s)) \<and>
   (resolved_sigjmp M ebp old_ebp return_address index f \<and>
    read32 (mem M) (return_address + 4) = Some operand \<and>
    get_index_sigjmp M (return_address + operand + 8) = Inr exit_index \<and>
    print_arguments_sigjmp M f old_ebp = (s, Caught) \<longrightarrow>
      step_sigjmp M ebp out = Done (out @ ''Function '' @ f_name f @ ''('' @ s)) \<and>
   (resolved_probe M ebp old_ebp return_address index f \<and>
    read32 (mem M) (return_address + 4) = Some operand \<and>
    get_index_probe M (return_address + operand + 8) = Inr exit_index \<and>
    functions_at M exit_index = Inr fe \<and> (f_name fe = ''exit'' \<or> f_name f = ''_start'') \<longrightarrow>
      step_probe M fd ebp out = Done out) \<and>
   (resolved_probe M ebp old_ebp return_address index f \<and>
    read32 (mem M) (return_address + 4) = Some operand \<and>
    get_index_probe M (return_address + operand + 8) = Inr exit_index \<and>
    functions_at M exit_index = Inr fe \<and> f_name fe \<noteq> ''exit'' \<and> f_name f \<noteq> ''_start'' \<longrightarrow>
      step_probe M fd ebp out =
        (case print_arguments_probe M fd f old_ebp of
           Inl e \<Rightarrow> Crashed e
         | Inr t \<Rightarrow> Walking old_ebp (out @ frame_line f t))) \<and>
   (read32 (mem M) ebp = Some 0 \<and> read32 (mem M) (ebp + 4) = Some return_address \<longrightarrow>
      step_probe M fd ebp out = Done (out @ FATAL))"
proof -
  have nocorrupt: "\<not> (old_ebp \<noteq> 0 \<and> old_ebp \<le> ebp)"
    if "resolved_sigjmp M ebp old_ebp return_address index f"
    using that by (auto simp: resolved_sigjmp_def)
  have main: "is_main M index exit_index = Inr (f_name fe = ''exit'' \<or> f_name f = ''_start'')"
    if "resolved_probe M ebp old_ebp return_address index f" "functions_at M exit_index = Inr fe"
    using that by (simp add: resolved_probe_def is_main_def)
  have up: "\<not> old_ebp \<le> ebp" if "resolved_probe M ebp old_ebp return_address index f"
    using that by (auto simp: resolved_probe_def)
  show ?thesis
  proof (intro conjI impI)
    show "step_sigjmp M 0 out = Done out" by (simp add: step_sigjmp_def)
  next
    assume "ebp \<noteq> 0 \<and> (read32 (mem M) ebp = None \<or> read32 (mem M) (ebp + 4) = None)"
    then show "step_sigjmp M ebp out = Done out"
      by (auto simp: step_sigjmp_def split: option.splits)
  next
    assume h: "resolved_sigjmp M ebp old_ebp return_address index f \<and>
      read32 (mem M) (return_address + 4) = None"
    then show "step_sigjmp M ebp out = Done out"
      using nocorrupt by (auto simp: step_sigjmp_def resolved_sigjmp_def)
  next
    assume h: "resolved_sigjmp M ebp old_ebp return_address index f \<and>
      read32 (mem M) (return_address + 4) = Some operand \<and>
      get_index_sigjmp M (return_address + operand + 8) = Inr exit_index \<and>
      print_arguments_sigjmp M f old_ebp = (s, Val ())"
    then show "step_sigjmp M ebp out = Walking old_ebp (out @ frame_line f s)"
      using nocorrupt by (auto simp: step_sigjmp_def resolved_sigjmp_def)
  next
    assume h: "resolved_sigjmp M ebp old_ebp return_address index f \<and>
      read32 (mem M) (return_address + 4) = Some operand \<and>
      get_index_sigjmp M (return_address + operand + 8) = Inr exit_index \<and>
      print_arguments_sigjmp M f old_ebp = (s, Caught)"
    then show "step_sigjmp M ebp out = Done (out @ ''Function '' @ f_name f @ ''('' @ s)"
      using nocorrupt by (auto simp: step_sigjmp_def resolved_sigjmp_def)
  next
    assume h: "resolved_probe M ebp old_ebp return_address index f \<and>
      read32 (mem M) (return_address + 4) = Some operand \<and>
      get_index_probe M (return_address + operand + 8) = Inr exit_index \<and>
      functions_at M exit_index = Inr fe \<and> (f_name fe = ''exit'' \<or> f_name f = ''_start'')"
    then have "is_main M index exit_index = Inr True" using main by simp
    with h show "step_probe M fd ebp out = Done out"
      using up by (simp add: step_probe_def resolved_probe_def)
  next
    assume h: "resolved_probe M ebp old_ebp return_address index f \<and>
      read32 (mem M) (return_address + 4) = Some operand \<and>
      get_index_probe M (return_address + operand + 8) = Inr exit_index \<and>
      functions_at M exit_index = Inr fe \<and> f_name fe \<noteq> ''exit'' \<and> f_name f \<noteq> ''_start''"
    then have "is_main M index exit_index = Inr False" using main by simp
    with h show "step_probe M fd ebp out =
        (case print_arguments_probe M fd f old_ebp of
           Inl e \<Rightarrow> Crashed e
         | Inr t \<Rightarrow> Walking old_ebp (out @ frame_line f t))"
      using up by (simp add: step_probe_def resolved_probe_def)
  next
    assume "read32 (mem M) ebp = Some 0 \<and> read32 (mem M) (ebp + 4) = Some return_address"
    then show "step_probe M fd ebp out = Done (out @ FATAL)"
      by (simp add: step_probe_def)
  qed
qed

text \<open>
  Each case at a frame at \<open>0xbf00\<close>: an unmapped frame; a return address in \<^verbatim>\<open>main\<close>
  with no readable word after it; a frame of \<^verbatim>\<open>main\<close>; a frame of \<^verbatim>\<open>b(int x, int y)\<close>
  whose second argument cannot be read, in both revisions; a frame of \<^verbatim>\<open>_start\<close>; and
  the outermost frame.
\<close>

theorem walker_stop_conditions_witness:
  "step_sigjmp (table4 Map.empty) 0xbf00 [] = Done [] \<and>
   step_sigjmp (table4 frame_no_code) 0xbf00 [] = Done [] \<and>
   step_sigjmp (table4 frame_in_main) 0xbf00 []
     = Walking 0xbf20 (''Function main(void), in'' @ NEWLINE) \<and>
   step_sigjmp (table_args frame_int_top) 0xbf00 [] = Done ''Function b(int x=7, '' \<and>
   step_probe (table4 frame_in_start) 3 0xbf00 [] = Done [] \<and>
   step_probe (table4 frame_in_main) 3 0xbf00 []
     = Walking 0xbf20 (''Function main(void), in'' @ NEWLINE) \<and>
   step_probe (table_args frame_int_top) 3 0xbf00 [] = Crashed (SegFault 0xc000) \<and>
   step_probe (table4 frame_outermost) 3 0xbf00 [] = Done FATAL"
proof -
  let ?A = "table4 frame_in_main" and ?B = "table4 frame_in_start"
  let ?C = "table_args frame_int_top" and ?N = "table4 frame_no_code"
  let ?main = "\<lparr>f_addr = 0x2000, f_name = ''main'', f_args = []\<rparr>"
  let ?start = "\<lparr>f_addr = 0x1000, f_name = ''_start'', f_args = []\<rparr>"
  let ?exit = "\<lparr>f_addr = 0x3000, f_name = ''exit'', f_args = []\<rparr>"
  let ?b = "\<lparr>f_addr = 0x3000, f_name = ''b'', f_args =
              [\<lparr>a_type = TYPE_INT, a_offset = 8, a_name = ''x''\<rparr>,
               \<lparr>a_type = TYPE_INT, a_offset = 12, a_name = ''y''\<rparr>]\<rparr>"
  have h2: "(0xbf00 :: 32 word) \<noteq> 0 \<and> (read32 (mem (table4 Map.empty)) 0xbf00 = None \<or>
      read32 (mem (table4 Map.empty)) (0xbf00 + 4) = None)"
    by code_simp
  have h3: "resolved_sigjmp ?N 0xbf00 0xbf20 0x2010 1 ?main \<and>
      read32 (mem ?N) (0x2010 + 4) = None"
    by code_simp
  have h4: "resolved_sigjmp ?A 0xbf00 0xbf20 0x2010 1 ?main \<and>
      read32 (mem ?A) (0x2010 + 4) = Some 0 \<and>
      get_index_sigjmp ?A (0x2010 + 0 + 8) = Inr 1 \<and>
      print_arguments_sigjmp ?A ?main 0xbf20 = (''void'', Val ())"
    by code_simp
  have h5: "resolved_sigjmp ?C 0xbf00 0xbff4 0x3010 1 ?b \<and>
      read32 (mem ?C) (0x3010 + 4) = Some 0 \<and>
      get_index_sigjmp ?C (0x3010 + 0 + 8) = Inr 1 \<and>
      print_arguments_sigjmp ?C ?b 0xbff4 = (''int x=7, '', Caught)"
    by code_simp
  have h6: "resolved_probe ?B 0xbf00 0xbf20 0x1010 0 ?start \<and>
      read32 (mem ?B) (0x1010 + 4) = Some 0x1fe8 \<and>
      get_index_probe ?B (0x1010 + 0x1fe8 + 8) = Inr 2 \<and>
      functions_at ?B 2 = Inr ?exit \<and> (f_name ?exit = ''exit'' \<or> f_name ?start = ''_start'')"
    by code_simp
  have h7: "resolved_probe ?A 0xbf00 0xbf20 0x2010 1 ?main \<and>
      read32 (mem ?A) (0x2010 + 4) = Some 0 \<and>
      get_index_probe ?A (0x2010 + 0 + 8) = Inr 1 \<and>
      functions_at ?A 1 = Inr ?main \<and> f_name ?main \<noteq> ''exit'' \<and> f_name ?main \<noteq> ''_start''"
    by code_simp
  have p7: "print_arguments_probe ?A 3 ?main 0xbf20 = Inr ''void''"
    by code_simp
  have h8: "resolved_probe ?C 0xbf00 0xbff4 0x3010 1 ?b \<and>
      read32 (mem ?C) (0x3010 + 4) = Some 0 \<and>
      get_index_probe ?C (0x3010 + 0 + 8) = Inr 1 \<and>
      functions_at ?C 1 = Inr ?b \<and> f_name ?b \<noteq> ''exit'' \<and> f_name ?b \<noteq> ''_start''"
    by code_simp
  have p8: "print_arguments_probe ?C 3 ?b 0xbff4 = Inl (SegFault 0xc000)"
    by code_simp
  have h9: "read32 (mem (table4 frame_outermost)) 0xbf00 = Some 0 \<and>
      read32 (mem (table4 frame_outermost)) (0xbf00 + 4) = Some 0x1010"
    by code_simp
  note T2 = walker_stop_conditions[where M = "table4 Map.empty" and ebp = "0xbf00" and out = "[]",
      THEN conjunct2, THEN conjunct1, THEN mp, OF h2]
  note T3 = walker_stop_conditions[where M = ?N and ebp = "0xbf00" and old_ebp = "0xbf20"
      and return_address = "0x2010" and index = 1 and f = ?main and out = "[]",
      THEN conjunct2, THEN conjunct2, THEN conjunct1, THEN mp, OF h3]
  note T4 = walker_stop_conditions[where M = ?A and ebp = "0xbf00" and old_ebp = "0xbf20"
      and return_address = "0x2010" and index = 1 and f = ?main and operand = 0
      and exit_index = 1 and s = "''void''" and out = "[]",
      THEN conjunct2, THEN conjunct2, THEN conjunct2, THEN conjunct1, THEN mp, OF h4]
  note T5 = walker_stop_conditions[where M = ?C and ebp = "0xbf00" and old_ebp = "0xbff4"
      and return_address = "0x3010" and index = 1 and f = ?b and operand = 0
      and exit_index = 1 and s = "''int x=7, ''" and out = "[]",
      THEN conjunct2, THEN conjunct2, THEN conjunct2, THEN conjunct2, THEN conjunct1, THEN mp,
      OF h5]
  note T6 = walker_stop_conditions[where M = ?B and ebp = "0xbf00" and old_ebp = "0xbf20"
      and return_address = "0x1010" and index = 0 and f = ?start and operand = "0x1fe8"
      and exit_index = 2 and fe = ?exit and fd = 3 and out = "[]",
      THEN conjunct2, THEN conjunct2, THEN conjunct2, THEN conjunct2, THEN conjunct2,
      THEN conjunct1, THEN mp, OF h6]
  note T7 = walker_stop_conditions[where M = ?A and ebp = "0xbf00" and old_ebp = "0xbf20"
      and return_address = "0x2010" and index = 1 and f = ?main and operand = 0
      and exit_index = 1 and fe = ?main and fd = 3 and out = "[]",
      THEN conjunct2, THEN conjunct2, THEN conjunct2, THEN conjunct2, THEN conjunct2,
      THEN conjunct2, THEN conjunct1, THEN mp, OF h7]
  note T8 = walker_stop_conditions[where M = ?C and ebp = "0xbf00" and old_ebp = "0xbff4"
      and return_address = "0x3010" and index = 1 and f = ?b and operand = 0
      and exit_index = 1 and fe = ?b and fd = 3 and out = "[]",
      THEN conjunct2, THEN conjunct2, THEN conjunct2, THEN conjunct2, THEN conjunct2,
      THEN conjunct2, THEN conjunct1, THEN mp, OF h8]
  note T9 = walker_stop_conditions[where M = "table4 frame_outermost" and ebp = "0xbf00"
      and return_address = "0x1010" and fd = 3 and out = "[]",
      THEN conjunct2, THEN conjunct2, THEN conjunct2, THEN conjunct2, THEN conjunct2,
      THEN conjunct2, THEN conjunct2, THEN mp, OF h9]
  have 4: "step_sigjmp ?A 0xbf00 [] = Walking 0xbf20 (''Function main(void), in'' @ NEWLINE)"
    using T4 by (simp add: frame_line_def)
  have 5: "step_sigjmp ?C 0xbf00 [] = Done ''Function b(int x=7, ''"
    using T5 by simp
  have 7: "step_probe ?A 3 0xbf00 [] = Walking 0xbf20 (''Function main(void), in'' @ NEWLINE)"
    using T7 by (simp add: p7 frame_line_def)
  have 8: "step_probe ?C 3 0xbf00 [] = Crashed (SegFault 0xc000)"
    using T8 by (simp add: p8)
  have 9: "step_probe (table4 frame_outermost) 3 0xbf00 [] = Done FATAL"
    using T9 by simp
  show ?thesis using T2 T3 4 5 T6 7 8 9 by simp
qed

text \<open>
  Claim C6 as stated fails for the signal revision: at a frame whose return address
  lies in \<^verbatim>\<open>_start\<close> and whose exit address lies in \<^verbatim>\<open>exit\<close>, the iteration writes the
  line of \<^verbatim>\<open>_start\<close> and goes on to the caller's frame.
\<close>

theorem walker_stop_conditions_counterexample:
  "get_index_sigjmp (table3 frame_in_start) 0x1010 = Inr 0 \<and>
   functions_at (table3 frame_in_start) 0
     = Inr \<lparr>f_addr = 0x1000, f_name = ''_start'', f_args = []\<rparr> \<and>
   read32 (mem (table3 frame_in_start)) (0x1010 + 4) = Some 0x1fe8 \<and>
   get_index_sigjmp (table3 frame_in_start) (0x1010 + 0x1fe8 + 8) = Inr 2 \<and>
   functions_at (table3 frame_in_start) 2
     = Inr \<lparr>f_addr = 0x3000, f_name = ''exit'', f_args = []\<rparr> \<and>
   step_sigjmp (table3 frame_in_start) 0xbf00 []
     = Walking 0xbf20 (''Function _start(void), in'' @ NEWLINE)"
  by code_simp

text \<open>
  Claim C7, a defect of the signal revision.  \<^verbatim>\<open>is_string_print\<close> and
  \<^verbatim>\<open>print_string_array\<close> arm \<^verbatim>\<open>jump_to\<close> in their own frames, and nothing arms it
  again before the next argument is read.  So whenever a string or string-array argument
  has been printed, \<^verbatim>\<open>jump_to\<close> names a \<^verbatim>\<open>sigsetjmp\<close> whose function has returned; a
  following argument whose slot cannot be read raises \<^verbatim>\<open>SIGSEGV\<close>, and the
  \<^verbatim>\<open>siglongjmp\<close> of the handler goes there.  The behaviour is then undefined: at a
  resolved frame the iteration, and with it the walk, ends in \<open>Crashed (StaleJump a)\<close>
  and not by a \<^verbatim>\<open>break\<close> of the loop.  The model follows the run no further.
\<close>

theorem stale_jump_after_string:
  "((a_type arg = TYPE_STRING \<or> a_type arg = TYPE_STRING_ARRAY) \<and>
    print_arg_sigjmp M j arg a = (s, Val j') \<longrightarrow> j' = Dead) \<and>
   (a_type arg' = TYPE_INT \<and> read32 (mem M) a' = None \<longrightarrow>
      print_arg_sigjmp M Dead arg' a' = ([], Undefined (StaleJump a'))) \<and>
   (resolved_sigjmp M ebp old_ebp return_address index f \<and>
    read32 (mem M) (return_address + 4) = Some operand \<and>
    get_index_sigjmp M (return_address + operand + 8) = Inr exit_index \<and>
    print_arguments_sigjmp M f old_ebp = (s', Undefined e) \<longrightarrow>
      step_sigjmp M ebp out = Crashed e \<and> loop_sigjmp M (Walking ebp out) = Crashed e)"
proof (intro conjI impI)
  assume "(a_type arg = TYPE_STRING \<or> a_type arg = TYPE_STRING_ARRAY) \<and>
    print_arg_sigjmp M j arg a = (s, Val j')"
  then show "j' = Dead"
    by (auto simp: print_arg_sigjmp_def split: guarded.splits sum.splits)
next
  assume "a_type arg' = TYPE_INT \<and> read32 (mem M) a' = None"
  then show "print_arg_sigjmp M Dead arg' a' = ([], Undefined (StaleJump a'))"
    by (simp add: print_arg_sigjmp_def guard_def)
next
  assume h: "resolved_sigjmp M ebp old_ebp return_address index f \<and>
    read32 (mem M) (return_address + 4) = Some operand \<and>
    get_index_sigjmp M (return_address + operand + 8) = Inr exit_index \<and>
    print_arguments_sigjmp M f old_ebp = (s', Undefined e)"
  then show st: "step_sigjmp M ebp out = Crashed e"
    by (auto simp: step_sigjmp_def resolved_sigjmp_def)
  then show "loop_sigjmp M (Walking ebp out) = Crashed e" by simp
qed

text \<open>
  A frame of \<^verbatim>\<open>c(char *s, int y)\<close> at \<open>0xbf00\<close>: \<open>s\<close> points to \<^verbatim>\<open>hi\<close> and the slot of
  \<open>y\<close>, at \<open>0xc000\<close>, is not mapped.
\<close>

theorem stale_jump_after_string_witness:
  "print_arg_sigjmp (table_args frame_str_top) AtLoop
     \<lparr>a_type = TYPE_STRING, a_offset = 8, a_name = ''s''\<rparr> 0xbffc
     = (''char *s='' @ DQUOTE @ ''hi'' @ DQUOTE, Val Dead) \<and>
   print_arg_sigjmp (table_args frame_str_top) Dead
     \<lparr>a_type = TYPE_INT, a_offset = 12, a_name = ''y''\<rparr> 0xc000
     = ([], Undefined (StaleJump 0xc000)) \<and>
   loop_sigjmp (table_args frame_str_top) (Walking 0xbf00 []) = Crashed (StaleJump 0xc000)"
proof -
  let ?M = "table_args frame_str_top"
  let ?c = "\<lparr>f_addr = 0x3800, f_name = ''c'', f_args =
              [\<lparr>a_type = TYPE_STRING, a_offset = 8, a_name = ''s''\<rparr>,
               \<lparr>a_type = TYPE_INT, a_offset = 12, a_name = ''y''\<rparr>]\<rparr>"
  have 1: "print_arg_sigjmp ?M AtLoop \<lparr>a_type = TYPE_STRING, a_offset = 8, a_name = ''s''\<rparr> 0xbffc
     = (''char *s='' @ DQUOTE @ ''hi'' @ DQUOTE, Val Dead)"
    by code_simp
  have h2: "a_type \<lparr>a_type = TYPE_INT, a_offset = 12, a_name = ''y''\<rparr> = TYPE_INT \<and>
      read32 (mem ?M) 0xc000 = None"
    by code_simp
  have h3: "resolved_sigjmp ?M 0xbf00 0xbff4 0x3810 2 ?c \<and>
      read32 (mem ?M) (0x3810 + 4) = Some 0 \<and>
      get_index_sigjmp ?M (0x3810 + 0 + 8) = Inr 2 \<and>
      print_arguments_sigjmp ?M ?c 0xbff4
        = (''char *s='' @ DQUOTE @ ''hi'' @ DQUOTE @ '', '', Undefined (StaleJump 0xc000))"
    by code_simp
  note T2 = stale_jump_after_string[where M = ?M and a' = "0xc000"
      and arg' = "\<lparr>a_type = TYPE_INT, a_offset = 12, a_name = ''y''\<rparr>",
      THEN conjunct2, THEN conjunct1, THEN mp, OF h2]
  note T3 = stale_jump_after_string[where M = ?M and ebp = "0xbf00" and old_ebp = "0xbff4"
      and return_address = "0x3810" and index = 2 and f = ?c and operand = 0
      and exit_index = 2 and e = "StaleJump 0xc000" and out = "[]"
      and s' = "''char *s='' @ DQUOTE @ ''hi'' @ DQUOTE @ '', ''",
      THEN conjunct2, THEN conjunct2, THEN mp, OF h3]
  show ?thesis using 1 T2 T3 by simp
qed

subsection \<open>Two runs in a row\<close>

text \<open>
  The write-probe revision uses the descriptor only in \<^verbatim>\<open>isvalid\<close>, which tests its
  sign: two descriptors that are both open give the same text.
\<close>

lemma isp_loop_probe_fd:
  "0 \<le> fd \<Longrightarrow> 0 \<le> fd' \<Longrightarrow> isp_loop_probe fd m p len = isp_loop_probe fd' m p len"
proof (induction fd m p len rule: isp_loop_probe.induct)
  case (1 fd m arg_val len)
  have v: "isvalid fd' m a = isvalid fd m a" for a
    using "1.prems" by (simp add: isvalid_def)
  show ?case
    using "1.IH" "1.prems"
    by (subst isp_loop_probe.simps[of fd], subst isp_loop_probe.simps[of fd'])
       (auto simp: v split: option.splits)
qed

lemma print_string_probe_fd:
  "0 \<le> fd \<Longrightarrow> 0 \<le> fd' \<Longrightarrow> print_string_probe fd m p = print_string_probe fd' m p"
  using isp_loop_probe_fd[of fd fd' m p 0]
  by (simp add: print_string_probe_def is_string_print_probe_def)

lemma psa_loop_probe_fd:
  "0 \<le> fd \<Longrightarrow> 0 \<le> fd' \<Longrightarrow> psa_loop_probe fd m p i = psa_loop_probe fd' m p i"
proof (induction fd m p i rule: psa_loop_probe.induct)
  case (1 fd m arg_val i)
  note unf = psa_loop_probe.simps[of _ m arg_val i]
  note ps = print_string_probe_fd[OF "1.prems"]
  show ?case
  proof (cases "read32 m (arg_val + 4 * of_nat i)")
    case None
    then show ?thesis by (simp add: unf)
  next
    case (Some q)
    show ?thesis
    proof (cases "q \<noteq> 0 \<and> i < MAX_ARRAY_LEN")
      case False
      then show ?thesis using Some by (auto simp: unf)
    next
      case True
      show ?thesis
      proof (cases "print_string_probe fd m q")
        case (Inl e)
        then show ?thesis using Some True ps[of m q] by (simp add: unf)
      next
        case (Inr t)
        have "psa_loop_probe fd m arg_val (i + 1) = psa_loop_probe fd' m arg_val (i + 1)"
          using "1.IH"[OF Some True Inr] "1.prems" by simp
        then show ?thesis using Some True Inr ps[of m q] by (simp add: unf)
      qed
    qed
  qed
qed

lemma print_arg_probe_fd:
  "0 \<le> fd \<Longrightarrow> 0 \<le> fd' \<Longrightarrow> print_arg_probe M fd arg a = print_arg_probe M fd' arg a"
  using print_string_probe_fd[of fd fd'] psa_loop_probe_fd[of fd fd']
  by (cases "a_type arg")
     (simp_all add: print_arg_probe_def print_string_array_probe_def split: option.splits)

lemma pa_loop_probe_fd:
  "0 \<le> fd \<Longrightarrow> 0 \<le> fd' \<Longrightarrow> pa_loop_probe M fd f ebp index = pa_loop_probe M fd' f ebp index"
proof (induction M fd f ebp index rule: pa_loop_probe.induct)
  case (1 M fd f ebp index)
  note unf = pa_loop_probe.simps[of M _ f ebp index]
  note pa = print_arg_probe_fd[OF "1.prems", of M "args_at f index"
      "arg_address ebp (args_at f index)"]
  show ?case
  proof (cases "int index < ARGS_MAX_NUM M \<and> a_name (args_at f index) \<noteq> []")
    case False
    then show ?thesis by (auto simp: unf)
  next
    case True
    show ?thesis
    proof (cases "print_arg_probe M fd (args_at f index) (arg_address ebp (args_at f index))")
      case (Inl e)
      then show ?thesis using True pa by (simp add: unf)
    next
      case (Inr t)
      have "pa_loop_probe M fd f ebp (index + 1) = pa_loop_probe M fd' f ebp (index + 1)"
        using "1.IH"[OF True Inr] "1.prems" by simp
      then show ?thesis using True Inr pa by (simp add: unf)
    qed
  qed
qed

lemma step_probe_fd:
  "0 \<le> fd \<Longrightarrow> 0 \<le> fd' \<Longrightarrow> step_probe M fd ebp out = step_probe M fd' ebp out"
  using pa_loop_probe_fd[of fd fd']
  by (simp add: step_probe_def print_arguments_probe_def
      split: option.splits sum.splits bool.splits)

lemma loop_probe_fd:
  "0 \<le> fd \<Longrightarrow> 0 \<le> fd' \<Longrightarrow> loop_probe M fd w = loop_probe M fd' w"
proof (induction M fd w rule: loop_probe.induct)
  case (1 M fd ebp out)
  then show ?case using step_probe_fd[of fd fd' M ebp out] by simp
qed simp_all

text \<open>
  Claim C8, as amended.  Write-probe revision: the text depends on whether \<^verbatim>\<open>a.out\<close>
  can be opened for writing, and a run that returns removes the file.  Unless, before
  the first run, the file exists, cannot be opened for writing and lies in a directory
  where it can be removed, a first run that returns with the text \<open>out\<close> and a second
  run on the same table, memory and frame pointer, started with the file as the first
  run left it, write the same text; the descriptors of the two runs and the value of
  the global \<^verbatim>\<open>fd\<close> between them need not agree.  Signal revision: a run that returns
  with the text \<open>out'\<close> and a second run on the same table, memory and frame pointer,
  started with \<^verbatim>\<open>jump_to\<close> as the first run left it, write the same text.
\<close>

theorem traceback_deterministic:
  "(\<not> (probe_file s = Present False \<and> dir_writable s) \<and>
    traceback_probe M s g ebp = (Done out, s', fd) \<and>
    probe_file t = probe_file s' \<and> dir_writable t = dir_writable s' \<longrightarrow>
      fst (traceback_probe M t g' ebp) = Done out) \<and>
   (traceback_sigjmp M jump_to ebp = (Done out', jump_to') \<longrightarrow>
      traceback_sigjmp M jump_to' ebp = (Done out', jump_to'))"
proof (intro conjI impI)
  assume h: "\<not> (probe_file s = Present False \<and> dir_writable s) \<and>
    traceback_probe M s g ebp = (Done out, s', fd) \<and>
    probe_file t = probe_file s' \<and> dir_writable t = dir_writable s'"
  obtain fda s1 where o1: "sys_open s = (fda, s1)" by (cases "sys_open s")
  obtain fdb s3 where o2: "sys_open t = (fdb, s3)" by (cases "sys_open t")
  from h o1 have run: "loop_probe M fda (Walking ebp []) = Done out" and s': "s' = sys_remove s1"
    by (auto simp: traceback_probe_def split: walk.splits)
  have "(0 \<le> fda \<and> 0 \<le> fdb) \<or> fda = fdb"
    using h o1 o2 s'
    by (cases "probe_file s"; cases "dir_writable s")
       (auto simp: sys_open_def sys_remove_def split: file_state.splits bool.splits if_splits)
  then have "loop_probe M fdb (Walking ebp []) = loop_probe M fda (Walking ebp [])"
    using loop_probe_fd[of fdb fda M "Walking ebp []"] by auto
  then show "fst (traceback_probe M t g' ebp) = Done out"
    using run o2 by (simp add: traceback_probe_def)
next
  assume "traceback_sigjmp M jump_to ebp = (Done out', jump_to')"
  then show "traceback_sigjmp M jump_to' ebp = (Done out', jump_to')"
    by (auto simp: traceback_sigjmp_def split: if_splits)
qed

text \<open>
  The call chain of \<open>table_chain\<close>, with \<^verbatim>\<open>a.out\<close> absent before the first run and a
  different descriptor free at the second; and the signal revision on the same chain.
\<close>

theorem traceback_deterministic_witness:
  "traceback_probe (table_chain stack_chain) os_clean 0 0xbf00 =
     (Done (''Function b(int x=5, char *s='' @ DQUOTE @ ''hi'' @ DQUOTE @ ''), in'' @ NEWLINE @
            ''Function a(void), in'' @ NEWLINE @
            ''Function main(void), in'' @ NEWLINE), os_clean, 3) \<and>
   fst (traceback_probe (table_chain stack_chain) os_other 3 0xbf00) =
     Done (''Function b(int x=5, char *s='' @ DQUOTE @ ''hi'' @ DQUOTE @ ''), in'' @ NEWLINE @
           ''Function a(void), in'' @ NEWLINE @
           ''Function main(void), in'' @ NEWLINE) \<and>
   traceback_sigjmp (table_chain stack_chain) AtString 0xbf00 =
     (Done (''Function b(int x=5, char *s='' @ DQUOTE @ ''hi'' @ DQUOTE @ ''), in'' @ NEWLINE @
            ''Function a(void), in'' @ NEWLINE @
            ''Function main(void), in'' @ NEWLINE @
            ''Function _start(void), in'' @ NEWLINE), Dead) \<and>
   traceback_sigjmp (table_chain stack_chain) Dead 0xbf00 =
     (Done (''Function b(int x=5, char *s='' @ DQUOTE @ ''hi'' @ DQUOTE @ ''), in'' @ NEWLINE @
            ''Function a(void), in'' @ NEWLINE @
            ''Function main(void), in'' @ NEWLINE @
            ''Function _start(void), in'' @ NEWLINE), Dead)"
proof -
  let ?M = "table_chain stack_chain"
  let ?out4 = "''Function b(int x=5, char *s='' @ DQUOTE @ ''hi'' @ DQUOTE @ ''), in'' @ NEWLINE @
      ''Function a(void), in'' @ NEWLINE @ ''Function main(void), in'' @ NEWLINE @
      ''Function _start(void), in'' @ NEWLINE"
  have run': "traceback_sigjmp ?M AtString 0xbf00 = (Done ?out4, Dead)"
    by code_simp
  note T' = traceback_deterministic[where M = ?M and jump_to = AtString and ebp = "0xbf00"
      and out' = ?out4 and jump_to' = Dead, THEN conjunct2, THEN mp, OF run']
  let ?out = "''Function b(int x=5, char *s='' @ DQUOTE @ ''hi'' @ DQUOTE @ ''), in'' @ NEWLINE @
      ''Function a(void), in'' @ NEWLINE @ ''Function main(void), in'' @ NEWLINE"
  have run: "traceback_probe ?M os_clean 0 0xbf00 = (Done ?out, os_clean, 3)"
    by code_simp
  have pre: "\<not> (probe_file os_clean = Present False \<and> dir_writable os_clean) \<and>
      probe_file os_other = probe_file os_clean \<and> dir_writable os_other = dir_writable os_clean"
    by code_simp
  have h: "\<not> (probe_file os_clean = Present False \<and> dir_writable os_clean) \<and>
      traceback_probe ?M os_clean 0 0xbf00 = (Done ?out, os_clean, 3) \<and>
      probe_file os_other = probe_file os_clean \<and> dir_writable os_other = dir_writable os_clean"
    using run pre by blast
  note T = traceback_deterministic[where M = ?M and s = os_clean and g = 0 and ebp = "0xbf00"
      and out = ?out and s' = os_clean and fd = 3 and t = os_other and g' = 3,
      THEN conjunct1, THEN mp, OF h]
  show ?thesis using run T run' T' by blast
qed

text \<open>
  Claim C8 as stated fails for the write-probe revision.  With \<^verbatim>\<open>a.out\<close> present and
  not open for writing, \<^verbatim>\<open>open\<close> fails in the first run, no address is found valid
  and the string is written as a pointer; the run removes the file, so the second run
  creates it and writes the string itself.
\<close>

theorem traceback_deterministic_counterexample:
  "traceback_probe (table_chain stack_chain) os_locked 0 0xbf00 =
     (Done (''Function b(int x=5, char *s=0x6000), in'' @ NEWLINE @
            ''Function a(void), in'' @ NEWLINE @
            ''Function main(void), in'' @ NEWLINE),
      os_locked\<lparr>probe_file := Absent\<rparr>, - 1) \<and>
   traceback_probe (table_chain stack_chain) (os_locked\<lparr>probe_file := Absent\<rparr>) (- 1) 0xbf00 =
     (Done (''Function b(int x=5, char *s='' @ DQUOTE @ ''hi'' @ DQUOTE @ ''), in'' @ NEWLINE @
            ''Function a(void), in'' @ NEWLINE @
            ''Function main(void), in'' @ NEWLINE),
      os_locked\<lparr>probe_file := Absent\<rparr>, 3)"
  by code_simp

section \<open>Properties of the argument formatter\<close>

subsection \<open>\<^verbatim>\<open>print_string\<close>\<close>

lemma uint_of_char: "uint (of_char c :: byte) = of_char c"
proof -
  have "(of_char c :: byte) = of_nat (of_char c)" by (simp only: of_nat_of_char)
  then have "unat (of_char c :: byte) = of_char c mod 256"
    by (simp only: unat_of_nat) simp
  then have "unat (of_char c :: byte) = of_char c" by simp
  then have "uint (of_char c :: byte) = int (of_char c)" by (simp only: uint_nat)
  then show ?thesis by (simp only: of_nat_of_char)
qed

lemma char_of_byte: "char_of (uint (of_char c :: byte)) = c"
  by (simp only: uint_of_char char_of_char)

lemma isp_loop_probe_prefix:
  "prefix_at m (p + of_nat len) s \<Longrightarrow> printable s \<Longrightarrow> 0 \<le> fd \<Longrightarrow>
   int (len + length s) \<le> INT_MAX \<Longrightarrow>
   isp_loop_probe fd m p len = isp_loop_probe fd m p (len + length s)"
proof (induction s arbitrary: len)
  case Nil
  then show ?case by simp
next
  case (Cons c cs)
  have pre: "prefix_at m (p + of_nat (Suc len)) cs"
    using Cons.prems(1) by (simp add: ac_simps)
  have pr: "printable cs" "isprint (of_char c)"
    using Cons.prems(2) by (simp_all add: printable_def)
  have lt: "\<not> INT_MAX \<le> int len" using Cons.prems(4) by simp
  have "isp_loop_probe fd m p len = isp_loop_probe fd m p (Suc len)"
    using Cons.prems(1,3) pr lt
    by (subst isp_loop_probe.simps) (simp add: isvalid_def read8_def)
  also have "\<dots> = isp_loop_probe fd m p (Suc len + length cs)"
    using Cons.IH[OF pre pr(1) Cons.prems(3)] Cons.prems(4) by simp
  finally show ?case by simp
qed

lemma isp_loop_probe_end:
  "m (p + of_nat n) = Some 0 \<Longrightarrow> 0 \<le> fd \<Longrightarrow> isp_loop_probe fd m p n = Inr (Some n)"
  by (subst isp_loop_probe.simps) (simp add: isvalid_def read8_def)

lemma isp_loop_probe_bad:
  "m (p + of_nat n) = None \<or> (\<exists>c. m (p + of_nat n) = Some c \<and> c \<noteq> 0 \<and> \<not> isprint c) \<Longrightarrow>
   isp_loop_probe fd m p n = Inr None"
  by (subst isp_loop_probe.simps) (auto simp: isvalid_def read8_def)

lemma isp_loop_probe_closed: "fd < 0 \<Longrightarrow> isp_loop_probe fd m p n = Inr None"
  by (subst isp_loop_probe.simps) (simp add: isvalid_def)

lemma print_chars_prefix:
  "prefix_at m (p + of_nat i) s \<Longrightarrow> i \<le> MAX_STRING_LEN \<Longrightarrow>
   print_chars flt m p (i + length s) i
     = Inr (take (MAX_STRING_LEN - i) s, min (i + length s) MAX_STRING_LEN)"
proof (induction s arbitrary: i)
  case Nil
  then show ?case by (subst print_chars.simps) simp
next
  case (Cons c cs)
  show ?case
  proof (cases "i < MAX_STRING_LEN")
    case True
    have pre: "prefix_at m (p + of_nat (Suc i)) cs"
      using Cons.prems(1) by (simp add: ac_simps)
    have "print_chars flt m p (Suc i + length cs) (Suc i)
        = Inr (take (MAX_STRING_LEN - Suc i) cs, min (Suc i + length cs) MAX_STRING_LEN)"
      using Cons.IH[OF pre] True by simp
    moreover have "take (MAX_STRING_LEN - i) (c # cs) = c # take (MAX_STRING_LEN - Suc i) cs"
    proof -
      have "MAX_STRING_LEN - i = Suc (MAX_STRING_LEN - Suc i)" using True by simp
      then show ?thesis by (simp only: take_Suc_Cons)
    qed
    ultimately show ?thesis
      using Cons.prems(1) True
      by (subst print_chars.simps) (simp add: read8_def char_of_byte)
  next
    case False
    then have "i = MAX_STRING_LEN" using Cons.prems(2) by simp
    then show ?thesis by (subst print_chars.simps) simp
  qed
qed

lemma print_string_probe_whole:
  assumes "0 \<le> fd" "p \<noteq> 0" "string_at m p s" "printable s" "int (length s) \<le> INT_MAX"
  shows "print_string_probe fd m p
     = Inr (quoted (take MAX_STRING_LEN s) (min (length s) MAX_STRING_LEN) (length s))"
proof -
  have pre: "prefix_at m (p + of_nat 0) s" and z: "m (p + of_nat (length s)) = Some 0"
    using assms(3) by (simp_all add: string_at_def)
  have "isp_loop_probe fd m p 0 = isp_loop_probe fd m p (0 + length s)"
    using isp_loop_probe_prefix[OF pre assms(4,1)] assms(5) by simp
  then have "is_string_print_probe fd m p = Inr (Some (length s))"
    using isp_loop_probe_end[where m = m and p = p and n = "length s", OF z assms(1)] assms(2)
    by (simp add: is_string_print_probe_def)
  moreover have "print_chars SegFault m p (length s) 0
      = Inr (take MAX_STRING_LEN s, min (length s) MAX_STRING_LEN)"
    using print_chars_prefix[OF pre, of SegFault] by simp
  ultimately show ?thesis by (simp add: print_string_probe_def)
qed

lemma print_string_probe_bad:
  assumes "prefix_at m p s" "printable s" "int (length s) \<le> INT_MAX"
    and "m (p + of_nat (length s)) = None \<or>
         (\<exists>c. m (p + of_nat (length s)) = Some c \<and> c \<noteq> 0 \<and> \<not> isprint c)"
  shows "print_string_probe fd m p = Inr (fmt_hash_x p)"
proof (cases "0 \<le> fd \<and> p \<noteq> 0")
  case True
  have pre: "prefix_at m (p + of_nat 0) s" using assms(1) by simp
  have "isp_loop_probe fd m p 0 = isp_loop_probe fd m p (0 + length s)"
    using isp_loop_probe_prefix[OF pre assms(2)] True assms(3) by simp
  then have "is_string_print_probe fd m p = Inr None"
    using isp_loop_probe_bad[where m = m and p = p and n = "length s" and fd = fd, OF assms(4)]
      True
    by (simp add: is_string_print_probe_def)
  then show ?thesis by (simp add: print_string_probe_def)
next
  case False
  then have "is_string_print_probe fd m p = Inr None"
    using isp_loop_probe_closed[of fd m p 0] by (auto simp: is_string_print_probe_def)
  then show ?thesis by (simp add: print_string_probe_def)
qed

lemma isp_loop_probe_readable:
  "isp_loop_probe fd m p len = Inr (Some n) \<Longrightarrow> len \<le> i \<Longrightarrow> i < n \<Longrightarrow>
   m (p + of_nat i) \<noteq> None"
proof (induction fd m p len rule: isp_loop_probe.induct)
  case (1 fd m arg_val len)
  from "1.prems"(1) have v: "isvalid fd m (arg_val + of_nat len)"
    by (subst (asm) isp_loop_probe.simps) (auto split: if_splits)
  then obtain c where c: "m (arg_val + of_nat len) = Some c" by (auto simp: isvalid_def)
  show ?case
  proof (cases "i = len")
    case True
    then show ?thesis using c by simp
  next
    case False
    then have lt: "len + 1 \<le> i" using "1.prems"(2) by simp
    have "c \<noteq> 0"
    proof
      assume "c = 0"
      then have "isp_loop_probe fd m arg_val len = Inr (Some len)"
        using v c by (subst isp_loop_probe.simps) (simp add: read8_def)
      with "1.prems" show False by simp
    qed
    moreover from this "1.prems"(1) v c have pr: "isprint c" and nov: "\<not> INT_MAX \<le> int len"
      by (subst (asm) isp_loop_probe.simps; auto simp: read8_def split: if_splits)+
    moreover have "isp_loop_probe fd m arg_val (len + 1) = Inr (Some n)"
      using "1.prems"(1) v c \<open>c \<noteq> 0\<close> pr nov
      by (subst (asm) isp_loop_probe.simps) (simp add: read8_def)
    moreover have "read8 m (arg_val + of_nat len) = Some c" using c by (simp add: read8_def)
    ultimately show ?thesis
      using "1.IH"[of c] v lt "1.prems"(3) by simp
  qed
qed

lemma print_chars_readable:
  "(\<And>j. i \<le> j \<Longrightarrow> j < slen \<Longrightarrow> m (p + of_nat j) \<noteq> None) \<Longrightarrow>
   \<exists>r. print_chars flt m p slen i = Inr r"
proof (induction flt m p slen i rule: print_chars.induct)
  case (1 flt m arg_val slen i)
  show ?case
  proof (cases "i < slen \<and> i < MAX_STRING_LEN")
    case True
    then obtain c where c: "m (arg_val + of_nat i) = Some c" using "1.prems"[of i] by auto
    have "\<exists>r. print_chars flt m arg_val slen (i + 1) = Inr r"
      using "1.IH"[OF True, of c] c "1.prems" by (simp add: read8_def)
    then show ?thesis using True c
      by (subst print_chars.simps) (auto simp: read8_def)
  next
    case False
    then show ?thesis by (subst print_chars.simps) auto
  qed
qed

lemma print_string_probe_no_segfault: "print_string_probe fd m p \<noteq> Inl (SegFault a)"
proof (cases "is_string_print_probe fd m p")
  case (Inl e)
  have "isp_loop_probe fd m p len \<noteq> Inl (SegFault a)" for len
  proof (induction fd m p len rule: isp_loop_probe.induct)
    case (1 fd m arg_val len)
    show ?case
      using "1.IH"
      by (subst isp_loop_probe.simps) (auto simp: isvalid_def read8_def split: option.splits)
  qed
  then show ?thesis using Inl
    by (auto simp: print_string_probe_def is_string_print_probe_def split: if_splits)
next
  case (Inr r)
  show ?thesis
  proof (cases r)
    case None
    then show ?thesis using Inr by (simp add: print_string_probe_def)
  next
    case (Some n)
    then have "isp_loop_probe fd m p 0 = Inr (Some n)"
      using Inr by (auto simp: is_string_print_probe_def split: if_splits)
    then have "\<And>j. 0 \<le> j \<Longrightarrow> j < n \<Longrightarrow> m (p + of_nat j) \<noteq> None"
      by (rule isp_loop_probe_readable)
    from print_chars_readable[where m = m and p = p and i = 0 and slen = n and flt = SegFault,
        OF this]
    obtain x where "print_chars SegFault m p n 0 = Inr x" by blast
    then show ?thesis using Inr Some by (cases x) (simp add: print_string_probe_def)
  qed
qed

text \<open>
  Claim C3, as amended (write-probe revision).  A null pointer is rendered by
  \<^verbatim>\<open>%#x\<close>.  When the probe file is open (\<open>0 \<le> fd\<close>), a non-null pointer to a readable,
  null-terminated string of printable characters is rendered between double quotes: the
  whole string when its length is at most \<^verbatim>\<open>MAX_STRING_LEN\<close>, its first
  \<^verbatim>\<open>MAX_STRING_LEN\<close> characters followed by \<^verbatim>\<open>...\<close> when it is longer.  A pointer with an
  unreadable byte or a byte that is not printable before any terminator is rendered by
  \<^verbatim>\<open>%#x\<close>, and so is every pointer when the probe file could not be opened.  No case
  ends in an invalid access.
\<close>

theorem print_string_rendering:
  "print_string_probe fd m 0 = Inr (fmt_hash_x 0) \<and>
   (0 \<le> fd \<and> p \<noteq> 0 \<and> string_at m p s \<and> printable s \<and> length s \<le> MAX_STRING_LEN \<longrightarrow>
      print_string_probe fd m p = Inr (DQUOTE @ s @ DQUOTE)) \<and>
   (0 \<le> fd \<and> p \<noteq> 0 \<and> string_at m p s \<and> printable s \<and> MAX_STRING_LEN < length s \<and>
    int (length s) \<le> INT_MAX \<longrightarrow>
      print_string_probe fd m p = Inr (DQUOTE @ take MAX_STRING_LEN s @ ''...'' @ DQUOTE)) \<and>
   (prefix_at m p s \<and> printable s \<and> int (length s) \<le> INT_MAX \<and>
    (m (p + of_nat (length s)) = None \<or>
     (\<exists>c. m (p + of_nat (length s)) = Some c \<and> c \<noteq> 0 \<and> \<not> isprint c)) \<longrightarrow>
      print_string_probe fd m p = Inr (fmt_hash_x p)) \<and>
   (fd < 0 \<longrightarrow> print_string_probe fd m p = Inr (fmt_hash_x p)) \<and>
   (\<forall>a. print_string_probe fd m p \<noteq> Inl (SegFault a))"
proof (intro conjI impI allI)
  show "print_string_probe fd m 0 = Inr (fmt_hash_x 0)"
    by (simp add: print_string_probe_def is_string_print_probe_def)
next
  assume h: "0 \<le> fd \<and> p \<noteq> 0 \<and> string_at m p s \<and> printable s \<and> length s \<le> MAX_STRING_LEN"
  then have "int (length s) \<le> INT_MAX" by (simp add: MAX_STRING_LEN_def INT_MAX_def)
  with h have "print_string_probe fd m p
     = Inr (quoted (take MAX_STRING_LEN s) (min (length s) MAX_STRING_LEN) (length s))"
    by (intro print_string_probe_whole) simp_all
  then show "print_string_probe fd m p = Inr (DQUOTE @ s @ DQUOTE)"
    using h by (simp add: quoted_def)
next
  assume h: "0 \<le> fd \<and> p \<noteq> 0 \<and> string_at m p s \<and> printable s \<and> MAX_STRING_LEN < length s \<and>
    int (length s) \<le> INT_MAX"
  then have "print_string_probe fd m p
     = Inr (quoted (take MAX_STRING_LEN s) (min (length s) MAX_STRING_LEN) (length s))"
    by (intro print_string_probe_whole) simp_all
  then show "print_string_probe fd m p = Inr (DQUOTE @ take MAX_STRING_LEN s @ ''...'' @ DQUOTE)"
    using h by (simp add: quoted_def)
next
  assume "prefix_at m p s \<and> printable s \<and> int (length s) \<le> INT_MAX \<and>
    (m (p + of_nat (length s)) = None \<or>
     (\<exists>c. m (p + of_nat (length s)) = Some c \<and> c \<noteq> 0 \<and> \<not> isprint c))"
  then show "print_string_probe fd m p = Inr (fmt_hash_x p)"
    using print_string_probe_bad[of m p s fd] by blast
next
  assume "fd < 0"
  then have "is_string_print_probe fd m p = Inr None"
    using isp_loop_probe_closed[of fd m p 0] by (simp add: is_string_print_probe_def)
  then show "print_string_probe fd m p = Inr (fmt_hash_x p)"
    by (simp add: print_string_probe_def)
next
  fix a show "print_string_probe fd m p \<noteq> Inl (SegFault a)"
    by (rule print_string_probe_no_segfault)
qed

text \<open>
  The string \<^verbatim>\<open>hi\<close>, a string of 30 characters, the unmapped address \<open>0x5fff\<close>, and
  \<^verbatim>\<open>hi\<close> again with the probe file closed.
\<close>

theorem print_string_rendering_witness:
  "print_string_probe 3 mem_hi 0x6000 = Inr (DQUOTE @ ''hi'' @ DQUOTE) \<and>
   print_string_probe 3 mem_long 0x7000
     = Inr (DQUOTE @ ''abcdefghijklmnopqrstuvwxy'' @ ''...'' @ DQUOTE) \<and>
   print_string_probe 3 mem_hi 0x5fff = Inr ''0x5fff'' \<and>
   print_string_probe (- 1) mem_hi 0x6000 = Inr ''0x6000''"
proof -
  have h1: "(0::int) \<le> 3 \<and> (0x6000 :: 32 word) \<noteq> 0 \<and> string_at mem_hi 0x6000 ''hi'' \<and>
      printable ''hi'' \<and> length ''hi'' \<le> MAX_STRING_LEN"
    by code_simp
  have h2: "(0::int) \<le> 3 \<and> (0x7000 :: 32 word) \<noteq> 0 \<and>
      string_at mem_long 0x7000 ''abcdefghijklmnopqrstuvwxyz0123'' \<and>
      printable ''abcdefghijklmnopqrstuvwxyz0123'' \<and>
      MAX_STRING_LEN < length ''abcdefghijklmnopqrstuvwxyz0123'' \<and>
      int (length ''abcdefghijklmnopqrstuvwxyz0123'') \<le> INT_MAX"
    by code_simp
  have h3: "prefix_at mem_hi 0x5fff [] \<and> printable [] \<and> int (length ([] :: string)) \<le> INT_MAX \<and>
      (mem_hi (0x5fff + of_nat (length ([] :: string))) = None \<or>
       (\<exists>c. mem_hi (0x5fff + of_nat (length ([] :: string))) = Some c \<and> c \<noteq> 0 \<and> \<not> isprint c))"
  proof -
    have "mem_hi 0x5fff = None" by code_simp
    then show ?thesis by (simp add: printable_def INT_MAX_def)
  qed
  have h4: "(- 1 :: int) < 0" by simp
  note T1 = print_string_rendering[where fd = 3 and m = mem_hi and p = "0x6000" and s = "''hi''",
      THEN conjunct2, THEN conjunct1, THEN mp, OF h1]
  note T2 = print_string_rendering[where fd = 3 and m = mem_long and p = "0x7000"
      and s = "''abcdefghijklmnopqrstuvwxyz0123''",
      THEN conjunct2, THEN conjunct2, THEN conjunct1, THEN mp, OF h2]
  note T3 = print_string_rendering[where fd = 3 and m = mem_hi and p = "0x5fff" and s = "[]",
      THEN conjunct2, THEN conjunct2, THEN conjunct2, THEN conjunct1, THEN mp, OF h3]
  note T4 = print_string_rendering[where fd = "- 1" and m = mem_hi and p = "0x6000",
      THEN conjunct2, THEN conjunct2, THEN conjunct2, THEN conjunct2, THEN conjunct1, THEN mp,
      OF h4]
  have e2: "take MAX_STRING_LEN ''abcdefghijklmnopqrstuvwxyz0123'' = ''abcdefghijklmnopqrstuvwxy''"
    by code_simp
  have e3: "fmt_hash_x 0x5fff = ''0x5fff''" by code_simp
  have e4: "fmt_hash_x 0x6000 = ''0x6000''" by code_simp
  show ?thesis using T1 T2 T3 T4 by (simp only: e2 e3 e4 simp_thms)
qed

text \<open>
  Claim C3 as stated fails at a string of exactly \<^verbatim>\<open>MAX_STRING_LEN\<close> characters, which
  is rendered whole and with no ellipsis; and a readable printable string is rendered as
  a pointer when \<^verbatim>\<open>open\<close> has failed.
\<close>

theorem print_string_rendering_counterexample:
  "string_at mem_25 0x7000 ''abcdefghijklmnopqrstuvwxy'' \<and>
   printable ''abcdefghijklmnopqrstuvwxy'' \<and>
   length ''abcdefghijklmnopqrstuvwxy'' \<ge> MAX_STRING_LEN \<and>
   print_string_probe 3 mem_25 0x7000 = Inr (DQUOTE @ ''abcdefghijklmnopqrstuvwxy'' @ DQUOTE) \<and>
   string_at mem_hi 0x6000 ''hi'' \<and> printable ''hi'' \<and> length ''hi'' < MAX_STRING_LEN \<and>
   print_string_probe (- 1) mem_hi 0x6000 = Inr ''0x6000''"
  by code_simp

subsection \<open>\<^verbatim>\<open>print_string_array\<close>\<close>

text \<open>
  Claim C4 (a defect of the code).  In the write-probe revision \<^verbatim>\<open>print_string_array\<close>
  reads \<^verbatim>\<open>arg_val[i]\<close> with no call to \<^verbatim>\<open>isvalid\<close>: an argument of type
  \<^verbatim>\<open>char **\<close> whose value is not null and points to unreadable memory ends the process
  with an invalid access.
\<close>

theorem print_string_array_unguarded:
  "(arg_val \<noteq> 0 \<and> read32 m arg_val = None \<longrightarrow>
      print_string_array_probe fd m arg_val = Inl (SegFault arg_val)) \<and>
   (a_type arg = TYPE_STRING_ARRAY \<and> read32 (mem M) a = Some arg_val \<and> arg_val \<noteq> 0 \<and>
    read32 (mem M) arg_val = None \<longrightarrow>
      print_arg_probe M fd arg a = Inl (SegFault arg_val))"
proof (intro conjI impI)
  assume "arg_val \<noteq> 0 \<and> read32 m arg_val = None"
  then show "print_string_array_probe fd m arg_val = Inl (SegFault arg_val)"
    by (simp add: print_string_array_probe_def psa_loop_probe.simps)
next
  assume h: "a_type arg = TYPE_STRING_ARRAY \<and> read32 (mem M) a = Some arg_val \<and> arg_val \<noteq> 0 \<and>
    read32 (mem M) arg_val = None"
  then have "print_string_array_probe fd (mem M) arg_val = Inl (SegFault arg_val)"
    by (simp add: print_string_array_probe_def psa_loop_probe.simps)
  with h show "print_arg_probe M fd arg a = Inl (SegFault arg_val)"
    by (simp add: print_arg_probe_def)
qed

text \<open>The pointer \<open>0xdeadbeef\<close> in a memory with nothing mapped.\<close>

theorem print_string_array_unguarded_witness:
  "print_string_array_probe 3 Map.empty 0xdeadbeef = Inl (SegFault 0xdeadbeef)"
proof -
  have h: "(0xdeadbeef :: 32 word) \<noteq> 0 \<and> read32 Map.empty (0xdeadbeef :: 32 word) = None"
    by code_simp
  show ?thesis
    by (rule print_string_array_unguarded[where arg_val = "0xdeadbeef" and m = Map.empty
          and fd = 3, THEN conjunct1, THEN mp, OF h])
qed

lemma commas_Cons: "commas (t # ts) = t @ comma_each ts"
  by (induction ts arbitrary: t) simp_all

lemma psa_loop_probe_cells:
  "cells_at m (p + 4 * of_nat i) (ptrs @ [e]) \<Longrightarrow> \<forall>q \<in> set ptrs. q \<noteq> 0 \<Longrightarrow>
   i + length ptrs \<le> MAX_ARRAY_LEN \<Longrightarrow> e = 0 \<or> i + length ptrs = MAX_ARRAY_LEN \<Longrightarrow>
   list_all2 (\<lambda>q t. print_string_probe fd m q = Inr t) ptrs strs \<Longrightarrow>
   psa_loop_probe fd m p i
     = Inr ((if i > 0 then comma_each strs else commas strs)
            @ (if e \<noteq> 0 then '', ...'' else []))"
proof (induction ptrs arbitrary: i strs)
  case Nil
  then have "read32 m (p + 4 * of_nat i) = Some e" "strs = []" by simp_all
  then show ?case using Nil.prems(3,4)
    by (subst psa_loop_probe.simps) auto
next
  case (Cons q qs)
  from Cons.prems(5) obtain t ts where strs: "strs = t # ts"
    and t: "print_string_probe fd m q = Inr t"
    and ts: "list_all2 (\<lambda>q t. print_string_probe fd m q = Inr t) qs ts"
    by (auto simp: list_all2_Cons1)
  have rd: "read32 m (p + 4 * of_nat i) = Some q" and q: "q \<noteq> 0" and lt: "i < MAX_ARRAY_LEN"
    using Cons.prems(1,2,3) by simp_all
  have eq: "p + 4 * of_nat (Suc i) = p + 4 * of_nat i + 4" by (simp add: algebra_simps)
  have "cells_at m (p + 4 * of_nat i + 4) (qs @ [e])" using Cons.prems(1) by simp
  then have cells: "cells_at m (p + 4 * of_nat (Suc i)) (qs @ [e])" by (simp only: eq)
  have "psa_loop_probe fd m p (Suc i)
     = Inr (comma_each ts @ (if e \<noteq> 0 then '', ...'' else []))"
    using Cons.IH[OF cells _ _ _ ts] Cons.prems(2,3,4) by simp
  then show ?case using rd q lt t strs
    by (subst psa_loop_probe.simps) (simp add: commas_Cons)
qed

lemma psa_check_cells:
  "cells_at m (p + 4 * of_nat i) (ptrs @ [e]) \<Longrightarrow> \<forall>q \<in> set ptrs. q \<noteq> 0 \<Longrightarrow>
   i + length ptrs \<le> MAX_ARRAY_LEN \<Longrightarrow> e = 0 \<or> i + length ptrs = MAX_ARRAY_LEN \<Longrightarrow>
   psa_check m p i"
proof (induction ptrs arbitrary: i)
  case Nil
  then have "read32 m (p + 4 * of_nat i) = Some e" by simp
  then show ?case using Nil.prems(3,4)
    by (subst psa_check.simps) auto
next
  case (Cons q qs)
  have rd: "read32 m (p + 4 * of_nat i) = Some q" and q: "q \<noteq> 0" and lt: "i < MAX_ARRAY_LEN"
    using Cons.prems(1,2,3) by simp_all
  have eq: "p + 4 * of_nat (Suc i) = p + 4 * of_nat i + 4" by (simp add: algebra_simps)
  have "cells_at m (p + 4 * of_nat i + 4) (qs @ [e])" using Cons.prems(1) by simp
  then have cells: "cells_at m (p + 4 * of_nat (Suc i)) (qs @ [e])" by (simp only: eq)
  have "psa_check m p (Suc i)"
    using Cons.IH[OF cells] Cons.prems(2,3,4) by simp
  then show ?case using rd q lt
    by (subst psa_check.simps) simp
qed

lemma psa_loop_sigjmp_cells:
  "cells_at m (p + 4 * of_nat i) (ptrs @ [e]) \<Longrightarrow> \<forall>q \<in> set ptrs. q \<noteq> 0 \<Longrightarrow>
   i + length ptrs \<le> MAX_ARRAY_LEN \<Longrightarrow> e = 0 \<or> i + length ptrs = MAX_ARRAY_LEN \<Longrightarrow>
   list_all2 (\<lambda>q t. print_string_sigjmp m q = Inr t) ptrs strs \<Longrightarrow>
   psa_loop_sigjmp m p i
     = Val ((if i > 0 then comma_each strs else commas strs)
            @ (if e \<noteq> 0 then '', ...'' else []))"
proof (induction ptrs arbitrary: i strs)
  case Nil
  then have "read32 m (p + 4 * of_nat i) = Some e" "strs = []" by simp_all
  then show ?case using Nil.prems(3,4)
    by (subst psa_loop_sigjmp.simps) (auto simp: guard_def)
next
  case (Cons q qs)
  from Cons.prems(5) obtain t ts where strs: "strs = t # ts"
    and t: "print_string_sigjmp m q = Inr t"
    and ts: "list_all2 (\<lambda>q t. print_string_sigjmp m q = Inr t) qs ts"
    by (auto simp: list_all2_Cons1)
  have rd: "read32 m (p + 4 * of_nat i) = Some q" and q: "q \<noteq> 0" and lt: "i < MAX_ARRAY_LEN"
    using Cons.prems(1,2,3) by simp_all
  have eq: "p + 4 * of_nat (Suc i) = p + 4 * of_nat i + 4" by (simp add: algebra_simps)
  have "cells_at m (p + 4 * of_nat i + 4) (qs @ [e])" using Cons.prems(1) by simp
  then have cells: "cells_at m (p + 4 * of_nat (Suc i)) (qs @ [e])" by (simp only: eq)
  have "psa_loop_sigjmp m p (Suc i)
     = Val (comma_each ts @ (if e \<noteq> 0 then '', ...'' else []))"
    using Cons.IH[OF cells _ _ _ ts] Cons.prems(2,3,4) by simp
  then show ?case using rd q lt t strs
    by (subst psa_loop_sigjmp.simps) (simp add: commas_Cons guard_def)
qed

text \<open>
  Claim C5.  In both revisions a null array pointer is rendered as \<^verbatim>\<open>0x0\<close>; an array
  whose first \<open>N \<le> MAX_ARRAY_LEN\<close> elements are not null and are followed by a null
  element is rendered as the \<open>N\<close> renderings \<^verbatim>\<open>print_string\<close> gives its elements, joined
  by commas, between braces; an array whose first \<^verbatim>\<open>MAX_ARRAY_LEN\<close> elements are
  followed by another element that is not null is rendered as the renderings of the
  first \<^verbatim>\<open>MAX_ARRAY_LEN\<close> elements followed by \<^verbatim>\<open>, ...\<close>, between braces.
\<close>

theorem print_string_array_rendering:
  "print_string_array_probe fd m 0 = Inr ''0x0'' \<and>
   print_string_array_sigjmp m 0 = Inr ''0x0'' \<and>
   (p \<noteq> 0 \<and> cells_at m p (ptrs @ [0]) \<and> (\<forall>q \<in> set ptrs. q \<noteq> 0) \<and>
    length ptrs \<le> MAX_ARRAY_LEN \<and>
    list_all2 (\<lambda>q t. print_string_probe fd m q = Inr t) ptrs strs \<longrightarrow>
      print_string_array_probe fd m p = Inr (''{'' @ commas strs @ ''}'')) \<and>
   (p \<noteq> 0 \<and> cells_at m p (ptrs @ [e]) \<and> (\<forall>q \<in> set ptrs. q \<noteq> 0) \<and> e \<noteq> 0 \<and>
    length ptrs = MAX_ARRAY_LEN \<and>
    list_all2 (\<lambda>q t. print_string_probe fd m q = Inr t) ptrs strs \<longrightarrow>
      print_string_array_probe fd m p = Inr (''{'' @ commas strs @ '', ...'' @ ''}'')) \<and>
   (p \<noteq> 0 \<and> cells_at m p (ptrs @ [0]) \<and> (\<forall>q \<in> set ptrs. q \<noteq> 0) \<and>
    length ptrs \<le> MAX_ARRAY_LEN \<and>
    list_all2 (\<lambda>q t. print_string_sigjmp m q = Inr t) ptrs strs \<longrightarrow>
      print_string_array_sigjmp m p = Inr (''{'' @ commas strs @ ''}'')) \<and>
   (p \<noteq> 0 \<and> cells_at m p (ptrs @ [e]) \<and> (\<forall>q \<in> set ptrs. q \<noteq> 0) \<and> e \<noteq> 0 \<and>
    length ptrs = MAX_ARRAY_LEN \<and>
    list_all2 (\<lambda>q t. print_string_sigjmp m q = Inr t) ptrs strs \<longrightarrow>
      print_string_array_sigjmp m p = Inr (''{'' @ commas strs @ '', ...'' @ ''}''))"
proof (intro conjI impI)
  show "print_string_array_probe fd m 0 = Inr ''0x0''"
    by (simp add: print_string_array_probe_def)
  show "print_string_array_sigjmp m 0 = Inr ''0x0''"
    by (simp add: print_string_array_sigjmp_def)
next
  assume h: "p \<noteq> 0 \<and> cells_at m p (ptrs @ [0]) \<and> (\<forall>q \<in> set ptrs. q \<noteq> 0) \<and>
    length ptrs \<le> MAX_ARRAY_LEN \<and>
    list_all2 (\<lambda>q t. print_string_probe fd m q = Inr t) ptrs strs"
  then have "psa_loop_probe fd m p 0 = Inr (commas strs)"
    using psa_loop_probe_cells[of m p 0 ptrs 0 fd strs] by simp
  with h show "print_string_array_probe fd m p = Inr (''{'' @ commas strs @ ''}'')"
    by (simp add: print_string_array_probe_def)
next
  assume h: "p \<noteq> 0 \<and> cells_at m p (ptrs @ [e]) \<and> (\<forall>q \<in> set ptrs. q \<noteq> 0) \<and> e \<noteq> 0 \<and>
    length ptrs = MAX_ARRAY_LEN \<and>
    list_all2 (\<lambda>q t. print_string_probe fd m q = Inr t) ptrs strs"
  then have "psa_loop_probe fd m p 0 = Inr (commas strs @ '', ...'')"
    using psa_loop_probe_cells[of m p 0 ptrs e fd strs] by simp
  with h show "print_string_array_probe fd m p = Inr (''{'' @ commas strs @ '', ...'' @ ''}'')"
    by (simp add: print_string_array_probe_def)
next
  assume h: "p \<noteq> 0 \<and> cells_at m p (ptrs @ [0]) \<and> (\<forall>q \<in> set ptrs. q \<noteq> 0) \<and>
    length ptrs \<le> MAX_ARRAY_LEN \<and>
    list_all2 (\<lambda>q t. print_string_sigjmp m q = Inr t) ptrs strs"
  then have "psa_loop_sigjmp m p 0 = Val (commas strs)"
    using psa_loop_sigjmp_cells[of m p 0 ptrs 0 strs] by simp
  moreover have "psa_check m p 0"
    using h psa_check_cells[of m p 0 ptrs 0] by simp
  ultimately show "print_string_array_sigjmp m p = Inr (''{'' @ commas strs @ ''}'')"
    using h by (simp add: print_string_array_sigjmp_def)
next
  assume h: "p \<noteq> 0 \<and> cells_at m p (ptrs @ [e]) \<and> (\<forall>q \<in> set ptrs. q \<noteq> 0) \<and> e \<noteq> 0 \<and>
    length ptrs = MAX_ARRAY_LEN \<and>
    list_all2 (\<lambda>q t. print_string_sigjmp m q = Inr t) ptrs strs"
  then have "psa_loop_sigjmp m p 0 = Val (commas strs @ '', ...'')"
    using psa_loop_sigjmp_cells[of m p 0 ptrs e strs] by simp
  moreover have "psa_check m p 0"
    using h psa_check_cells[of m p 0 ptrs e] by simp
  ultimately show "print_string_array_sigjmp m p = Inr (''{'' @ commas strs @ '', ...'' @ ''}'')"
    using h by (simp add: print_string_array_sigjmp_def)
qed

text \<open>An array of one string and an array of four, in both revisions.\<close>

theorem print_string_array_rendering_witness:
  "print_string_array_probe 3 mem_argv 0x5000 = Inr (''{'' @ DQUOTE @ ''hi'' @ DQUOTE @ ''}'') \<and>
   print_string_array_probe 3 mem_argv4 0x5000
     = Inr (''{'' @ DQUOTE @ ''hi'' @ DQUOTE @ '', '' @ DQUOTE @ ''hi'' @ DQUOTE @ '', ''
            @ DQUOTE @ ''hi'' @ DQUOTE @ '', ...'' @ ''}'') \<and>
   print_string_array_sigjmp mem_argv 0x5000 = Inr (''{'' @ DQUOTE @ ''hi'' @ DQUOTE @ ''}'') \<and>
   print_string_array_sigjmp mem_argv4 0x5000
     = Inr (''{'' @ DQUOTE @ ''hi'' @ DQUOTE @ '', '' @ DQUOTE @ ''hi'' @ DQUOTE @ '', ''
            @ DQUOTE @ ''hi'' @ DQUOTE @ '', ...'' @ ''}'')"
proof -
  let ?hi = "DQUOTE @ ''hi'' @ DQUOTE"
  have h1: "(0x5000 :: 32 word) \<noteq> 0 \<and> cells_at mem_argv 0x5000 ([0x6000] @ [0]) \<and>
      (\<forall>q \<in> set [0x6000 :: 32 word]. q \<noteq> 0) \<and> length [0x6000 :: 32 word] \<le> MAX_ARRAY_LEN \<and>
      list_all2 (\<lambda>q t. print_string_probe 3 mem_argv q = Inr t) [0x6000] [?hi]"
    by code_simp
  have h2: "(0x5000 :: 32 word) \<noteq> 0 \<and>
      cells_at mem_argv4 0x5000 ([0x6000, 0x6000, 0x6000] @ [0x6000]) \<and>
      (\<forall>q \<in> set [0x6000, 0x6000, 0x6000 :: 32 word]. q \<noteq> 0) \<and> (0x6000 :: 32 word) \<noteq> 0 \<and>
      length [0x6000, 0x6000, 0x6000 :: 32 word] = MAX_ARRAY_LEN \<and>
      list_all2 (\<lambda>q t. print_string_probe 3 mem_argv4 q = Inr t) [0x6000, 0x6000, 0x6000]
        [?hi, ?hi, ?hi]"
    by code_simp
  have h3: "(0x5000 :: 32 word) \<noteq> 0 \<and> cells_at mem_argv 0x5000 ([0x6000] @ [0]) \<and>
      (\<forall>q \<in> set [0x6000 :: 32 word]. q \<noteq> 0) \<and> length [0x6000 :: 32 word] \<le> MAX_ARRAY_LEN \<and>
      list_all2 (\<lambda>q t. print_string_sigjmp mem_argv q = Inr t) [0x6000] [?hi]"
    by code_simp
  have h4: "(0x5000 :: 32 word) \<noteq> 0 \<and>
      cells_at mem_argv4 0x5000 ([0x6000, 0x6000, 0x6000] @ [0x6000]) \<and>
      (\<forall>q \<in> set [0x6000, 0x6000, 0x6000 :: 32 word]. q \<noteq> 0) \<and> (0x6000 :: 32 word) \<noteq> 0 \<and>
      length [0x6000, 0x6000, 0x6000 :: 32 word] = MAX_ARRAY_LEN \<and>
      list_all2 (\<lambda>q t. print_string_sigjmp mem_argv4 q = Inr t) [0x6000, 0x6000, 0x6000]
        [?hi, ?hi, ?hi]"
    by code_simp
  note T1 = print_string_array_rendering[where fd = 3 and m = mem_argv and p = "0x5000"
      and ptrs = "[0x6000]" and strs = "[?hi]",
      THEN conjunct2, THEN conjunct2, THEN conjunct1, THEN mp, OF h1]
  note T2 = print_string_array_rendering[where fd = 3 and m = mem_argv4 and p = "0x5000"
      and ptrs = "[0x6000, 0x6000, 0x6000]" and e = "0x6000" and strs = "[?hi, ?hi, ?hi]",
      THEN conjunct2, THEN conjunct2, THEN conjunct2, THEN conjunct1, THEN mp, OF h2]
  note T3 = print_string_array_rendering[where m = mem_argv and p = "0x5000"
      and ptrs = "[0x6000]" and strs = "[?hi]",
      THEN conjunct2, THEN conjunct2, THEN conjunct2, THEN conjunct2, THEN conjunct1, THEN mp,
      OF h3]
  note T4 = print_string_array_rendering[where m = mem_argv4 and p = "0x5000"
      and ptrs = "[0x6000, 0x6000, 0x6000]" and e = "0x6000" and strs = "[?hi, ?hi, ?hi]",
      THEN conjunct2, THEN conjunct2, THEN conjunct2, THEN conjunct2, THEN conjunct2, THEN mp,
      OF h4]
  show ?thesis using T1 T2 T3 T4 by simp
qed

end
